theory Spec2Isabelle
  imports Main
begin

section \<open>The world the bug reducer runs in\<close>

text \<open>
  The reducer is a Python 2 program that launches external tools, tests paths, writes
  list files into a work directory and prints to the console. Each such effect is an
  event; the history of events is the state that every operation takes and returns
  (\<open>PrintDict\<close> is the \<open>print\<close> of a result dictionary, by its two entries).
  What the outside world answers (how a launched process ends, whether a path exists,
  whether a file can be opened for writing, what a digest of a byte string is, what the
  absolute form of a path is) is given by
  an environment, whose answers may depend on everything that happened before.
\<close>

datatype event =
    Print string
  | Spawn "string list"
  | Write string string
  | PrintDict int string

record proc_run =
  p_exit :: int
  p_stdout :: string
  p_stderr :: string

record env =
  popen :: "event list \<Rightarrow> string list \<Rightarrow> proc_run option"
  os_access :: "event list \<Rightarrow> string \<Rightarrow> bool"
  open_w :: "event list \<Rightarrow> string \<Rightarrow> bool"
  sha256_hexdigest :: "string \<Rightarrow> string"
  md5_hexdigest :: "string \<Rightarrow> string"
  abspath :: "string \<Rightarrow> string"

text \<open>
  Exceptions are values. \<open>OSError\<close> is what \<open>subprocess.Popen\<close> raises when the
  binary cannot be launched (\<open>popen\<close> answers \<open>None\<close>), \<open>CalledProcessError\<close> what
  \<open>check_call\<close> and \<open>check_output\<close> raise on a nonzero exit, \<open>AssertionError\<close> a failed
  \<open>assert\<close>, \<open>NameError\<close> the use of an unbound name, \<open>TypeError\<close>
  iterating over \<open>None\<close>, and \<open>IOError\<close> what \<open>open(path, 'w')\<close> raises when
  the file cannot be opened for writing (a missing or unwritable directory; \<open>open_w\<close>
  answers \<open>False\<close>).
\<close>

datatype error =
    RuntimeError string
  | OSError
  | CalledProcessError int
  | AssertionError
  | NameError string
  | TypeError
  | IOError string

type_synonym 'a io = "event list \<Rightarrow> (error + 'a) \<times> event list"

definition ret :: "'a \<Rightarrow> 'a io" where
  "ret x = (\<lambda>t. (Inr x, t))"

definition throw :: "error \<Rightarrow> 'a io" where
  "throw e = (\<lambda>t. (Inl e, t))"

definition bnd :: "'a io \<Rightarrow> ('a \<Rightarrow> 'b io) \<Rightarrow> 'b io" where
  "bnd m f = (\<lambda>t. case m t of (Inl e, t') \<Rightarrow> (Inl e, t') | (Inr x, t') \<Rightarrow> f x t')"

definition emit :: "event \<Rightarrow> unit io" where
  "emit ev = (\<lambda>t. (Inr (), t @ [ev]))"

definition emits :: "event list \<Rightarrow> unit io" where
  "emits evs = (\<lambda>t. (Inr (), t @ evs))"

subsection \<open>Strings and paths\<close>

text \<open>\<open>sep.join(xs)\<close> of Python.\<close>

fun str_join :: "string \<Rightarrow> string list \<Rightarrow> string" where
  "str_join sep [] = []"
| "str_join sep [x] = x"
| "str_join sep (x # y # ys) = x @ sep @ str_join sep (y # ys)"

text \<open>
  \<open>posixpath.join\<close> for one more component: an absolute component replaces the path,
  otherwise it is appended, with a slash unless the path is empty or ends in one.
\<close>

definition path_join :: "string \<Rightarrow> string \<Rightarrow> string" where
  "path_join a b =
     (if b \<noteq> [] \<and> hd b = CHR ''/'' then b
      else if a = [] \<or> last a = CHR ''/'' then a @ b
      else a @ ''/'' @ b)"

section \<open>subprocess\_utils.py\<close>

text \<open>
  A hash object of \<open>hashlib\<close> (and of the old \<open>md5\<close> module) accumulates the bytes
  it is fed: repeated \<open>update\<close> calls are the same as one call with the concatenation.
  The object is the buffer; \<open>hexdigest\<close> applies the environment's digest to it.
\<close>

definition hash_new :: "string" where
  "hash_new = []"

definition hash_update :: "string \<Rightarrow> string \<Rightarrow> string" where
  "hash_update h data = h @ data"

text \<open>
  \<open>call_fingerprint(args, echo_stderr, echo_stdout)\<close>: run the process to completion,
  feed the digest one byte for the exit class, then stdout, then stderr, echo the streams
  when asked, and return the dictionary \<open>{'exit_code', 'fingerprint'}\<close>.
\<close>

record run_result =
  exit_code :: int
  fingerprint :: string

definition call_fingerprint :: "env \<Rightarrow> string list \<Rightarrow> bool \<Rightarrow> bool \<Rightarrow> run_result io" where
  "call_fingerprint E args echo_stderr echo_stdout = (\<lambda>t.
     case popen E t args of
       None \<Rightarrow> (Inl OSError, t)
     | Some p \<Rightarrow>
         (let h0 = hash_new;
              h1 = (if p_exit p = 0 then hash_update h0 ''0'' else hash_update h0 ''1'');
              h2 = hash_update h1 (p_stdout p);
              h3 = hash_update h2 (p_stderr p);
              fp = sha256_hexdigest E h3
          in (Inr \<lparr>exit_code = p_exit p, fingerprint = fp\<rparr>,
              t @ [Spawn args]
                @ (if echo_stderr then [Print ''STDERR:'', Print (p_stderr p)] else [])
                @ (if echo_stdout then [Print ''STDOUT:'', Print (p_stdout p)] else []))))"

section \<open>swift\_tools.py\<close>

text \<open>
  \<open>br_call(args, dry_run, echo)\<close>. The module constants \<open>DRY_RUN = False\<close> and
  \<open>ECHO_CALLS = True\<close> are the defaults of the two flags.
\<close>

definition DRY_RUN :: bool where
  "DRY_RUN = False"

definition ECHO_CALLS :: bool where
  "ECHO_CALLS = True"

definition br_call :: "env \<Rightarrow> string list \<Rightarrow> bool \<Rightarrow> bool \<Rightarrow> run_result io" where
  "br_call E args dry_run echo =
     bnd (if dry_run \<or> echo then emit (Print (''BRCALL: '' @ str_join '' '' args)) else ret ())
       (\<lambda>_. if dry_run then ret \<lparr>exit_code = 0, fingerprint = ''''\<rparr>
             else call_fingerprint E args True True)"

text \<open>
  \<open>subprocess.check_call(args)\<close>: the process inherits the console, and a nonzero exit
  raises \<open>CalledProcessError\<close>. \<open>subprocess.check_output(args)\<close> is the same with
  the captured stdout as its value.
\<close>

definition check_call :: "env \<Rightarrow> string list \<Rightarrow> unit io" where
  "check_call E args = (\<lambda>t.
     case popen E t args of
       None \<Rightarrow> (Inl OSError, t)
     | Some p \<Rightarrow>
         if p_exit p \<noteq> 0 then (Inl (CalledProcessError (p_exit p)), t @ [Spawn args])
         else (Inr (), t @ [Spawn args]))"

definition check_output :: "env \<Rightarrow> string list \<Rightarrow> string io" where
  "check_output E args = (\<lambda>t.
     case popen E t args of
       None \<Rightarrow> (Inl OSError, t)
     | Some p \<Rightarrow>
         if p_exit p \<noteq> 0 then (Inl (CalledProcessError (p_exit p)), t @ [Spawn args])
         else (Inr (p_stdout p), t @ [Spawn args]))"

definition sanity_check_file_exists :: "env \<Rightarrow> string \<Rightarrow> unit io" where
  "sanity_check_file_exists E f = (\<lambda>t.
     if \<not> os_access E t f then (Inl (RuntimeError (''Error! Could not find file: '' @ f)), t)
     else (Inr (), t))"

subsection \<open>SwiftTools\<close>

record swift_tools =
  swift_build_dir :: string

definition SwiftTools_get_tool :: "env \<Rightarrow> swift_tools \<Rightarrow> string \<Rightarrow> string io" where
  "SwiftTools_get_tool E tls name = (\<lambda>t.
     let path = path_join (path_join (swift_build_dir tls) ''bin'') name in
     if \<not> os_access E t path
     then (Inl (RuntimeError (''Error! '' @ name @ '' does not exist at: '' @ path)), t)
     else (Inr path, t))"

definition sil_nm :: "env \<Rightarrow> swift_tools \<Rightarrow> string io" where
  "sil_nm E tls = SwiftTools_get_tool E tls ''sil-nm''"

definition sil_opt :: "env \<Rightarrow> swift_tools \<Rightarrow> string io" where
  "sil_opt E tls = SwiftTools_get_tool E tls ''sil-opt''"

definition sil_llvm_gen :: "env \<Rightarrow> swift_tools \<Rightarrow> string io" where
  "sil_llvm_gen E tls = SwiftTools_get_tool E tls ''sil-llvm-gen''"

definition sil_func_extractor :: "env \<Rightarrow> swift_tools \<Rightarrow> string io" where
  "sil_func_extractor E tls = SwiftTools_get_tool E tls ''sil-func-extractor''"

subsection \<open>SILToolInvokerConfig and the command-line namespace\<close>

text \<open>
  The \<open>argparse\<close> namespace the driver receives. Options without a default are
  \<open>None\<close> when absent, the two \<open>append\<close> options included; \<open>--work-dir\<close> has the
  default \<open>'bug_reducer'\<close> and the two positional arguments are always strings.
\<close>

record cli_args =
  arg_swift_build_dir :: string
  arg_input_file :: string
  arg_module_cache :: "string option"
  arg_sdk :: "string option"
  arg_target :: "string option"
  arg_resource_dir :: "string option"
  arg_work_dir :: string
  arg_module_name :: "string option"
  arg_pass_list :: "string list option"
  arg_extra_args :: "string list option"

record sil_tool_invoker_config =
  module_cache :: "string option"
  sdk :: "string option"
  target :: "string option"
  resource_dir :: "string option"
  work_dir :: string
  module_name' :: "string option"

definition maybe_abspath :: "env \<Rightarrow> string option \<Rightarrow> string option" where
  "maybe_abspath E x = (case x of None \<Rightarrow> None | Some y \<Rightarrow> Some (abspath E y))"

definition SILToolInvokerConfig :: "env \<Rightarrow> cli_args \<Rightarrow> sil_tool_invoker_config" where
  "SILToolInvokerConfig E a =
     \<lparr>module_cache = arg_module_cache a,
      sdk = arg_sdk a,
      target = arg_target a,
      resource_dir = maybe_abspath E (arg_resource_dir a),
      work_dir = abspath E (arg_work_dir a),
      module_name' = arg_module_name a\<rparr>"

subsection \<open>SILToolInvoker\<close>

definition convert_arg_to_cmdline :: "string \<Rightarrow> string \<Rightarrow> string list" where
  "convert_arg_to_cmdline argname argvalue = [argname @ ''='' @ argvalue]"

definition opt_arg :: "string \<Rightarrow> string option \<Rightarrow> string list" where
  "opt_arg argname v = (case v of None \<Rightarrow> [] | Some y \<Rightarrow> convert_arg_to_cmdline argname y)"

text \<open>
  \<open>base_args(emit_sib, emit_obj)\<close>. The \<open>tool\<close> property is abstract in the base
  class; each subclass looks its own tool up, so the lookup is the first argument.
  \<open>emit_obj\<close> is accepted and never read.
\<close>

definition base_args ::
  "string io \<Rightarrow> sil_tool_invoker_config \<Rightarrow> bool \<Rightarrow> bool \<Rightarrow> string list io" where
  "base_args tool cfg emit_sib emit_obj =
     bnd tool (\<lambda>tl. ret
       ([tl]
        @ opt_arg ''-sdk'' (sdk cfg)
        @ opt_arg ''-target'' (target cfg)
        @ opt_arg ''-resource-dir'' (resource_dir cfg)
        @ opt_arg ''-module-cache-path'' (module_cache cfg)
        @ opt_arg ''-module-name'' (module_name' cfg)
        @ (if emit_sib then [''-emit-sib''] else [])))"

subsection \<open>SILConstantInputToolInvoker\<close>

definition basename :: "string \<Rightarrow> string" where
  "basename p = rev (takeWhile (\<lambda>c. c \<noteq> CHR ''/'') (rev p))"

text \<open>
  \<open>posixpath.splitext\<close>: split at the last dot of the last component, unless that
  component has only dots before it.
\<close>

definition splitext :: "string \<Rightarrow> string \<times> string" where
  "splitext p =
     (let after = takeWhile (\<lambda>c. c \<noteq> CHR ''.'') (rev p) in
      if CHR ''.'' \<notin> set p \<or> CHR ''/'' \<in> set after then (p, [])
      else
        (let dotIndex = length p - length after - 1;
             root = take dotIndex p
         in if \<exists>c \<in> set (basename root). c \<noteq> CHR ''.''
            then (root, drop dotIndex p) else (p, [])))"

record invoker =
  config :: sil_tool_invoker_config
  extra_args :: "string list"
  tools :: swift_tools
  base_input_file_stem :: string
  original_base_input_file_ext :: string
  base_input_file_ext :: string
  input_file :: string

definition or_empty :: "string list option \<Rightarrow> string list" where
  "or_empty x = (case x of None \<Rightarrow> [] | Some xs \<Rightarrow> xs)"

definition SILConstantInputToolInvoker_init ::
  "env \<Rightarrow> sil_tool_invoker_config \<Rightarrow> swift_tools \<Rightarrow> string \<Rightarrow> string list option \<Rightarrow> invoker io" where
  "SILConstantInputToolInvoker_init E cfg tls initial_input_file xargs =
     bnd (check_call E [''mkdir'', ''-p'', work_dir cfg]) (\<lambda>_.
     let base_input_file = basename initial_input_file;
         (base, ext) = splitext base_input_file
     in bnd (sanity_check_file_exists E initial_input_file) (\<lambda>_.
        ret \<lparr>config = cfg,
             extra_args = or_empty xargs,
             tools = tls,
             base_input_file_stem = base,
             original_base_input_file_ext = ext,
             base_input_file_ext = ''.sib'',
             input_file = initial_input_file\<rparr>))"

definition get_suffixed_filename :: "invoker \<Rightarrow> string \<Rightarrow> string option \<Rightarrow> string" where
  "get_suffixed_filename ivk suffix ext =
     (let ext' = (case ext of None \<Rightarrow> base_input_file_ext ivk | Some e \<Rightarrow> e);
          bn = base_input_file_stem ivk @ ''_'' @ suffix;
          bn' = bn @ ext'
      in path_join (work_dir (config ivk)) bn')"

subsection \<open>SILOptInvoker\<close>

text \<open>
  A pass list of \<open>None\<close> (no \<open>--pass\<close> on the command line) makes
  \<open>base_args.extend(passes)\<close> raise \<open>TypeError\<close>.
\<close>

definition SILOptInvoker_cmdline ::
  "env \<Rightarrow> invoker \<Rightarrow> string \<Rightarrow> string list option \<Rightarrow> bool \<Rightarrow> string \<Rightarrow> string list io" where
  "SILOptInvoker_cmdline E ivk inp passes emit_sib output_file =
     bnd (base_args (sil_opt E (tools ivk)) (config ivk) emit_sib False) (\<lambda>ba.
     bnd (sanity_check_file_exists E inp) (\<lambda>_.
       case passes of
         None \<Rightarrow> throw TypeError
       | Some ps \<Rightarrow> ret (ba @ [inp, ''-o'', output_file] @ extra_args ivk @ ps)))"

definition SILOptInvoker_invoke ::
  "env \<Rightarrow> invoker \<Rightarrow> string \<Rightarrow> string list option \<Rightarrow> bool \<Rightarrow> string \<Rightarrow> run_result io" where
  "SILOptInvoker_invoke E ivk inp passes emit_sib output_filename =
     bnd (SILOptInvoker_cmdline E ivk inp passes emit_sib output_filename) (\<lambda>cmdline.
       br_call E cmdline DRY_RUN ECHO_CALLS)"

definition SILOptInvoker_init ::
  "env \<Rightarrow> sil_tool_invoker_config \<Rightarrow> swift_tools \<Rightarrow> string \<Rightarrow> string list option \<Rightarrow> invoker io" where
  "SILOptInvoker_init E cfg tls inp xargs =
     bnd (SILConstantInputToolInvoker_init E cfg tls inp xargs) (\<lambda>ivk0.
     let ivk = ivk0\<lparr>input_file := get_suffixed_filename ivk0 ''initial'' None\<rparr> in
     bnd (SILOptInvoker_invoke E ivk inp (Some []) True (input_file ivk)) (\<lambda>_. ret ivk))"

definition SILOptInvoker_invoke_with_passlist ::
  "env \<Rightarrow> invoker \<Rightarrow> string list option \<Rightarrow> string \<Rightarrow> run_result io" where
  "SILOptInvoker_invoke_with_passlist E ivk passes output_filename =
     SILOptInvoker_invoke E ivk (input_file ivk) passes True output_filename"

definition SILOptInvoker_cmdline_with_passlist ::
  "env \<Rightarrow> invoker \<Rightarrow> string list option \<Rightarrow> string list io" where
  "SILOptInvoker_cmdline_with_passlist E ivk passes =
     SILOptInvoker_cmdline E ivk (input_file ivk) passes False ''-''"

subsection \<open>SILFuncExtractorInvoker\<close>

definition SILFuncExtractorInvoker_init ::
  "env \<Rightarrow> sil_tool_invoker_config \<Rightarrow> swift_tools \<Rightarrow> string \<Rightarrow> invoker io" where
  "SILFuncExtractorInvoker_init E cfg tls inp =
     SILConstantInputToolInvoker_init E cfg tls inp (Some [])"

definition SILFuncExtractorInvoker_cmdline ::
  "env \<Rightarrow> invoker \<Rightarrow> string \<Rightarrow> string \<Rightarrow> bool \<Rightarrow> string \<Rightarrow> bool \<Rightarrow> string list io" where
  "SILFuncExtractorInvoker_cmdline E ivk inp funclist_path emit_sib output_file invert =
     bnd (sanity_check_file_exists E inp) (\<lambda>_.
     bnd (sanity_check_file_exists E funclist_path) (\<lambda>_.
     bnd (base_args (sil_func_extractor E (tools ivk)) (config ivk) emit_sib False) (\<lambda>ba.
       ret (ba @ [inp, ''-o'', output_file, ''-func-file='' @ funclist_path]
               @ (if invert then [''-invert''] else [])))))"

definition SILFuncExtractorInvoker_invoke ::
  "env \<Rightarrow> invoker \<Rightarrow> string \<Rightarrow> string \<Rightarrow> string \<Rightarrow> bool \<Rightarrow> run_result io" where
  "SILFuncExtractorInvoker_invoke E ivk inp funclist_path output_filename invert =
     bnd (SILFuncExtractorInvoker_cmdline E ivk inp funclist_path True output_filename invert)
       (\<lambda>cmdline. br_call E cmdline DRY_RUN ECHO_CALLS)"

definition invoke_with_functions ::
  "env \<Rightarrow> invoker \<Rightarrow> string \<Rightarrow> string \<Rightarrow> bool \<Rightarrow> run_result io" where
  "invoke_with_functions E ivk funclist_path output_filename invert =
     SILFuncExtractorInvoker_invoke E ivk (input_file ivk) funclist_path output_filename invert"

subsection \<open>SILNMInvoker\<close>

text \<open>\<open>s.split(c)\<close> of Python for a one-character separator: never empty.\<close>

fun split_on :: "char \<Rightarrow> string \<Rightarrow> string list" where
  "split_on c [] = [[]]"
| "split_on c (x # xs) =
     (if x = c then [] # split_on c xs
      else (case split_on c xs of [] \<Rightarrow> [[x]] | w # ws \<Rightarrow> (x # w) # ws))"

definition newline :: char where
  "newline = CHR 0x0A"

text \<open>
  The body of the generator's loop: each line must split into exactly two fields at
  single spaces, or the \<open>assert\<close> fails.
\<close>

fun symbol_tuples :: "string list \<Rightarrow> (string \<times> string) list io" where
  "symbol_tuples [] = ret []"
| "symbol_tuples (l # ls) =
     (case split_on CHR '' '' l of
        [a, b] \<Rightarrow> bnd (symbol_tuples ls) (\<lambda>r. ret ((a, b) # r))
      | _ \<Rightarrow> throw AssertionError)"

record nm_invoker =
  nm_config :: sil_tool_invoker_config
  nm_tools :: swift_tools

definition get_symbols :: "env \<Rightarrow> nm_invoker \<Rightarrow> string \<Rightarrow> (string \<times> string) list io" where
  "get_symbols E nm inp =
     bnd (sanity_check_file_exists E inp) (\<lambda>_.
     bnd (base_args (sil_nm E (nm_tools nm)) (nm_config nm) False False) (\<lambda>cmdline.
     bnd (check_output E (cmdline @ [inp])) (\<lambda>output.
       symbol_tuples (butlast (split_on newline output)))))"

subsection \<open>SwiftLLVMGenInvoker\<close>

definition SwiftLLVMGenInvoker_init ::
  "env \<Rightarrow> sil_tool_invoker_config \<Rightarrow> swift_tools \<Rightarrow> string \<Rightarrow> string list option \<Rightarrow> invoker io" where
  "SwiftLLVMGenInvoker_init E cfg tls inp xargs =
     SILConstantInputToolInvoker_init E cfg tls inp xargs"

definition SwiftLLVMGenInvoker_cmdline ::
  "env \<Rightarrow> invoker \<Rightarrow> string \<Rightarrow> string option \<Rightarrow> string list io" where
  "SwiftLLVMGenInvoker_cmdline E ivk inp output_file =
     bnd (base_args (sil_llvm_gen E (tools ivk)) (config ivk) False True) (\<lambda>ba.
     bnd (sanity_check_file_exists E inp) (\<lambda>_.
       ret (ba @ [inp]
               @ (case output_file of None \<Rightarrow> [] | Some f \<Rightarrow> [''-o'', f])
               @ [''-output-kind=object'']
               @ extra_args ivk)))"

definition SwiftLLVMGenInvoker_invoke :: "env \<Rightarrow> invoker \<Rightarrow> string \<Rightarrow> run_result io" where
  "SwiftLLVMGenInvoker_invoke E ivk output_filename =
     bnd (SwiftLLVMGenInvoker_cmdline E ivk (input_file ivk) (Some output_filename))
       (\<lambda>cmdline. br_call E cmdline DRY_RUN ECHO_CALLS)"

subsection \<open>SwiftOptCompileInvoker\<close>

record swift_opt_compile_invoker =
  oc_config :: sil_tool_invoker_config
  oc_tools :: swift_tools
  oc_extra_args :: "string list option"
  run_script :: string
  sil_opt_invoker :: invoker

definition SwiftOptCompileInvoker_init ::
  "env \<Rightarrow> sil_tool_invoker_config \<Rightarrow> swift_tools \<Rightarrow> string \<Rightarrow> string list option \<Rightarrow> string
     \<Rightarrow> swift_opt_compile_invoker io" where
  "SwiftOptCompileInvoker_init E cfg tls inp xargs script =
     bnd (SILOptInvoker_init E cfg tls inp xargs) (\<lambda>soi.
       ret \<lparr>oc_config = cfg, oc_tools = tls, oc_extra_args = xargs, run_script = script,
            sil_opt_invoker = soi\<rparr>)"

text \<open>
  \<open>invoke_with_passlist(passes, output_sib_filename, output_obj_filename)\<close>: optimise,
  generate the object file, run the script on it. A nonzero exit of either of the first
  two steps raises; the exit of the script is the value.
\<close>

definition SwiftOptCompileInvoker_invoke_with_passlist ::
  "env \<Rightarrow> swift_opt_compile_invoker \<Rightarrow> string list option \<Rightarrow> string \<Rightarrow> string \<Rightarrow> run_result io" where
  "SwiftOptCompileInvoker_invoke_with_passlist E oc passes output_sib_filename output_obj_filename =
     bnd (SILOptInvoker_invoke_with_passlist E (sil_opt_invoker oc) passes output_sib_filename)
       (\<lambda>result.
     if exit_code result \<noteq> 0 then throw (RuntimeError ''Optimizer Compile Time Crasher?!'')
     else
     bnd (SwiftLLVMGenInvoker_init E (oc_config oc) (oc_tools oc) output_sib_filename
            (oc_extra_args oc)) (\<lambda>gen.
     bnd (SwiftLLVMGenInvoker_invoke E gen output_obj_filename) (\<lambda>result'.
     bnd (emit (PrintDict (exit_code result') (fingerprint result'))) (\<lambda>_.
     if exit_code result' \<noteq> 0
     then throw (RuntimeError ''Swift LLVM Gen Compile Time Crasher?!'')
     else br_call E [run_script oc, output_obj_filename] DRY_RUN ECHO_CALLS))))"

section \<open>func\_bug\_reducer.py\<close>

text \<open>
  The three outcome tags come from the module \<open>list_reducer\<close>, which is not part of
  the sources at hand; they are three distinct constants.
\<close>

datatype test_result =
    TESTRESULT_KEEPPREFIX
  | TESTRESULT_KEEPSUFFIX
  | TESTRESULT_NOFAILURE

text \<open>
  The tester is an object of the class \<open>OptimizerTester\<close>, which the module names and
  never defines. The reducer calls it with the two extracted files and their stems and
  uses the truth of the answer; the driver asks it for a command line and reads its
  attribute \<open>result\<close>. All three are parameters here; the attribute is whatever the
  history has made it.
\<close>

record tester_obj =
  tester_call :: "string \<Rightarrow> string \<Rightarrow> string \<Rightarrow> string \<Rightarrow> bool io"
  cmdline_with_passlist :: "string list option \<Rightarrow> string list io"
  tester_result :: "event list \<Rightarrow> string"

record reduce_miscompiling_functions =
  target_list :: "string list"
  silextract :: invoker
  tester :: tester_obj

definition ReduceMiscompilingFunctions ::
  "string list \<Rightarrow> invoker \<Rightarrow> tester_obj \<Rightarrow> reduce_miscompiling_functions" where
  "ReduceMiscompilingFunctions functions sx tst =
     \<lparr>target_list = functions, silextract = sx, tester = tst\<rparr>"

definition get_output_filename_stems :: "string \<Rightarrow> string \<times> string" where
  "get_output_filename_stems funclist_hash =
     (let filename_stem = funclist_hash in (filename_stem, filename_stem @ ''_invert''))"

definition get_funclist_hash :: "env \<Rightarrow> string list \<Rightarrow> string" where
  "get_funclist_hash E funcs = md5_hexdigest E (foldl hash_update hash_new funcs)"

text \<open>
  \<open>_test_funclist(funcs)\<close>: write the list file (one function per line), extract the
  listed functions and their complement into two files named after the list's hash, and
  ask the tester. When the list file cannot be opened, \<open>open\<close> raises before anything
  is written or printed; a file that has been opened takes all the lines. The results of
  the two extractor runs are dropped.
\<close>

definition test_funclist :: "env \<Rightarrow> reduce_miscompiling_functions \<Rightarrow> string list \<Rightarrow> bool io" where
  "test_funclist E r funcs =
     (let funclist_hash = get_funclist_hash E funcs;
          funclist_path = path_join (work_dir (config (silextract r)))
                            (''func_list_'' @ funclist_hash)
      in
      bnd (\<lambda>t. if open_w E t funclist_path
               then (Inr (), t @ [Write funclist_path (concat (map (\<lambda>f. f @ [newline]) funcs))])
               else (Inl (IOError funclist_path), t)) (\<lambda>_.
      bnd (emit (Print (''Checking to see if the program is misoptimized with func list: ''
                        @ funclist_path))) (\<lambda>_.
      let (outfile_stem, outfile_invert_stem) = get_output_filename_stems funclist_hash;
          outfile = get_suffixed_filename (silextract r) outfile_stem None;
          outfile_invert = get_suffixed_filename (silextract r) outfile_invert_stem None
      in
      bnd (invoke_with_functions E (silextract r) funclist_path outfile False) (\<lambda>_.
      bnd (invoke_with_functions E (silextract r) funclist_path outfile_invert True) (\<lambda>_.
        tester_call (tester r) outfile outfile_stem outfile_invert outfile_invert_stem)))))"

definition run_test ::
  "env \<Rightarrow> reduce_miscompiling_functions \<Rightarrow> string list \<Rightarrow> string list
     \<Rightarrow> (test_result \<times> string list \<times> string list) io" where
  "run_test E r prefix suffix =
     bnd (if length suffix > 0 then test_funclist E r suffix else ret False) (\<lambda>keep_suffix.
     if keep_suffix then ret (TESTRESULT_KEEPSUFFIX, prefix, suffix)
     else
     bnd (if length prefix > 0 then test_funclist E r prefix else ret False) (\<lambda>keep_prefix.
     if keep_prefix then ret (TESTRESULT_KEEPPREFIX, prefix, suffix)
     else ret (TESTRESULT_NOFAILURE, prefix, suffix)))"

text \<open>
  \<open>reduce_list\<close> is a method of \<open>list_reducer.ListReducer\<close>, which is not part of
  the sources at hand. It is a parameter of the driver: given the oracle \<open>run_test\<close> of
  the reducer object and the initial target list, it answers with its return value and
  the target list it leaves behind.
\<close>

type_synonym reduce_list_fn =
  "(string list \<Rightarrow> string list \<Rightarrow> (test_result \<times> string list \<times> string list) io)
     \<Rightarrow> string list \<Rightarrow> (bool \<times> string list) io"

definition function_bug_reducer ::
  "env \<Rightarrow> reduce_list_fn \<Rightarrow> string \<Rightarrow> nm_invoker \<Rightarrow> invoker \<Rightarrow> invoker
     \<Rightarrow> string list option \<Rightarrow> tester_obj \<Rightarrow> unit io" where
  "function_bug_reducer E reduce_list inp nm soi sxi pass_list tst =
     bnd (get_symbols E nm inp) (\<lambda>syms.
     let functions = map snd (filter (\<lambda>s. fst s = ''F'') syms) in
     bnd (emit (Print ''Base case crashes! Trying to reduce *.sib file'')) (\<lambda>_.
     let r = ReduceMiscompilingFunctions functions sxi tst in
     bnd (reduce_list (run_test E r) (target_list r)) (\<lambda>(ok, final_list).
     bnd (if \<not> ok then emit (Print ''Failed to find miscompiling pass list!'') else ret ())
       (\<lambda>_.
     bnd (cmdline_with_passlist tst pass_list) (\<lambda>cmdline.
     bnd (emit (Print ''*** Successfully Reduced file!'')) (\<lambda>_.
     bnd (\<lambda>t. emit (Print (''*** Final File: '' @ tester_result tst t)) t) (\<lambda>_.
     bnd (emit (Print (''*** Final Functions: '' @ str_join '' '' final_list))) (\<lambda>_.
     emit (Print (''*** Repro command line: '' @ str_join '' '' cmdline))))))))))"

text \<open>
  \<open>invoke_function_bug_reducer(args)\<close>. The last line of the source builds the tester
  as \<open>OptimizerTester(sil_opt_invoker, pass_list)\<close>; neither name is bound in the
  module, so what that expression yields (a tester, or an exception) is the parameter
  \<open>optimizer_tester\<close>, evaluated last among the arguments of the call.
\<close>

definition invoke_function_bug_reducer ::
  "env \<Rightarrow> (invoker \<Rightarrow> tester_obj io) \<Rightarrow> reduce_list_fn \<Rightarrow> cli_args \<Rightarrow> unit io" where
  "invoke_function_bug_reducer E optimizer_tester reduce_list a =
     (let tls = \<lparr>swift_build_dir = arg_swift_build_dir a\<rparr>;
          cfg = SILToolInvokerConfig E a;
          nm = \<lparr>nm_config = cfg, nm_tools = tls\<rparr>;
          inp = arg_input_file a;
          xargs = arg_extra_args a
      in
      bnd (SILOptInvoker_init E cfg tls inp xargs) (\<lambda>soi.
      let filename = get_suffixed_filename soi ''base_case'' None in
      bnd (SILOptInvoker_invoke_with_passlist E soi (arg_pass_list a) filename) (\<lambda>result.
      if exit_code result = 0
      then (case arg_pass_list a of
              None \<Rightarrow> throw TypeError
            | Some ps \<Rightarrow> emit (Print (''Success with PassList: '' @ str_join '' '' ps)))
      else
      bnd (SILFuncExtractorInvoker_init E cfg tls inp) (\<lambda>sxi.
      bnd (optimizer_tester soi) (\<lambda>tst.
        function_bug_reducer E reduce_list inp nm soi sxi (arg_pass_list a) tst)))))"

section \<open>A small world for concrete runs\<close>

text \<open>
  Every tool exists, every file is there and can be written; the process \<open>false\<close>, every run of
  the function extractor and every run given the pass \<open>-bad-pass\<close> exit with 1,
  everything else with 0; the digests are the
  identity, which is collision-free. The tester reports an anomaly exactly for the
  candidate whose stem is \<open>g\<close>.
\<close>

definition demo_env :: env where
  "demo_env =
     \<lparr>popen = (\<lambda>t args. Some
         \<lparr>p_exit = (if args = [''false''] \<or> take 1 args = [''/b/bin/sil-func-extractor'']
                       \<or> ''-bad-pass'' \<in> set args
                    then 1 else 0),
          p_stdout = ''out'', p_stderr = []\<rparr>),
      os_access = (\<lambda>t f. True),
      open_w = (\<lambda>t f. True),
      sha256_hexdigest = (\<lambda>s. s),
      md5_hexdigest = (\<lambda>s. s),
      abspath = (\<lambda>p. p)\<rparr>"


definition demo_config :: sil_tool_invoker_config where
  "demo_config =
     \<lparr>module_cache = None, sdk = None, target = None, resource_dir = None,
      work_dir = ''/w'', module_name' = None\<rparr>"

definition demo_extractor :: invoker where
  "demo_extractor =
     \<lparr>config = demo_config, extra_args = [], tools = \<lparr>swift_build_dir = ''/b''\<rparr>,
      base_input_file_stem = ''m'', original_base_input_file_ext = ''.sib'',
      base_input_file_ext = ''.sib'', input_file = ''m.sib''\<rparr>"

definition demo_tester :: tester_obj where
  "demo_tester =
     \<lparr>tester_call = (\<lambda>outfile stem outfile_invert stem_invert. ret (stem = ''g'')),
      cmdline_with_passlist = (\<lambda>passes. ret []),
      tester_result = (\<lambda>t. [])\<rparr>"

definition demo_args :: "string list \<Rightarrow> cli_args" where
  "demo_args passes =
     \<lparr>arg_swift_build_dir = ''/b'', arg_input_file = ''m.sib'', arg_module_cache = None,
      arg_sdk = None, arg_target = None, arg_resource_dir = None, arg_work_dir = ''/w'',
      arg_module_name = None, arg_pass_list = Some passes, arg_extra_args = None\<rparr>"

definition demo_reducer :: reduce_miscompiling_functions where
  "demo_reducer = ReduceMiscompilingFunctions [''f'', ''g''] demo_extractor demo_tester"

section \<open>What a run writes\<close>

text \<open>
  The files a history has written, in order, as pairs of path and content; and the
  operations that write nothing.
\<close>


fun writes :: "event list \<Rightarrow> (string \<times> string) list" where
  "writes [] = []"
| "writes (Write p c # es) = (p, c) # writes es"
| "writes (Print s # es) = writes es"
| "writes (Spawn a # es) = writes es"
| "writes (PrintDict i s # es) = writes es"


definition keeps_writes :: "'a io \<Rightarrow> bool" where
  "keeps_writes m = (\<forall>t. writes (snd (m t)) = writes t)"

text \<open>The command lines of the processes a history has launched, in order.\<close>

fun spawns :: "event list \<Rightarrow> string list list" where
  "spawns [] = []"
| "spawns (Spawn a # es) = a # spawns es"
| "spawns (Write p c # es) = spawns es"
| "spawns (Print s # es) = spawns es"
| "spawns (PrintDict i s # es) = spawns es"

section \<open>The minimization engine\<close>

text \<open>
  Modelled from the spec: the minimization engine, \<open>list_reducer.ListReducer\<close> with
  its method \<open>reduce_list\<close>, which the program imports from the module
  \<open>list_reducer\<close> and which is not part of the sources at hand. Section 4.1 of the
  spec gives its contract, \<open>reduce(list, oracle)\<close>, and its algorithm in five steps;
  the definitions of this section follow these steps. The oracle is the caller's: it
  takes a prefix and a suffix and answers with an outcome, with effects and exceptions
  of its own, like \<open>run_test\<close>.
\<close>

type_synonym oracle_fn =
  "string list \<Rightarrow> string list \<Rightarrow> (test_result \<times> string list \<times> string list) io"

text \<open>
  Modelled from the spec: step 1, the partition of the target into \<open>granularity\<close>
  contiguous chunks. Chunk \<open>i\<close> of \<open>n\<close> begins at the element of index
  \<open>i * len div n\<close>: the chunks follow each other, cover the list, and their sizes
  differ by at most one. The complement of a chunk is everything else, in order.
\<close>

definition chunk_start :: "nat \<Rightarrow> nat \<Rightarrow> nat \<Rightarrow> nat" where
  "chunk_start len n i = i * len div n"

definition chunk :: "nat \<Rightarrow> 'a list \<Rightarrow> nat \<Rightarrow> 'a list" where
  "chunk n xs i =
     take (chunk_start (length xs) n (Suc i) - chunk_start (length xs) n i)
       (drop (chunk_start (length xs) n i) xs)"

definition chunk_complement :: "nat \<Rightarrow> 'a list \<Rightarrow> nat \<Rightarrow> 'a list" where
  "chunk_complement n xs i =
     take (chunk_start (length xs) n i) xs @ drop (chunk_start (length xs) n (Suc i)) xs"

text \<open>
  Modelled from the spec: step 2, ``for each chunk (and, if not found, each chunk's
  complement), invoke the oracle by treating that chunk as the candidate prefix against
  the rest as suffix (or vice versa) until one reports KeepPrefix or KeepSuffix''. A
  round probes every chunk as the prefix against its complement as the suffix, then
  every complement as the prefix against its chunk as the suffix, and stops at the first
  outcome that is KeepPrefix or KeepSuffix; the part so reported is a chunk or a
  complement. Every call of the oracle is counted, one that raises included, and an
  exception of the oracle ends the scan at once.
\<close>

datatype scan = ChunkFails nat | ComplementFails nat | NothingFails

definition probes :: "nat \<Rightarrow> (nat \<times> bool) list" where
  "probes n = map (\<lambda>i. (i, False)) [0..<n] @ map (\<lambda>i. (i, True)) [0..<n]"

fun try_chunks ::
  "oracle_fn \<Rightarrow> string list \<Rightarrow> nat \<Rightarrow> (nat \<times> bool) list \<Rightarrow> nat \<Rightarrow> event list
     \<Rightarrow> (error + scan) \<times> nat \<times> event list" where
  "try_chunks orc xs n [] c t = (Inr NothingFails, c, t)"
| "try_chunks orc xs n ((i, swapped) # ps) c t =
     (case (if swapped then orc (chunk_complement n xs i) (chunk n xs i) t
            else orc (chunk n xs i) (chunk_complement n xs i) t) of
        (Inl e, u) \<Rightarrow> (Inl e, Suc c, u)
      | (Inr (tag, p, s), u) \<Rightarrow>
          (case tag of
             TESTRESULT_KEEPPREFIX \<Rightarrow>
               (Inr (if swapped then ComplementFails i else ChunkFails i), Suc c, u)
           | TESTRESULT_KEEPSUFFIX \<Rightarrow>
               (Inr (if swapped then ChunkFails i else ComplementFails i), Suc c, u)
           | TESTRESULT_NOFAILURE \<Rightarrow> try_chunks orc xs n ps (Suc c) u))"

text \<open>
  Modelled from the spec: the ReductionState, ``current target list, current
  granularity, invocation count''. A run answers with the minimal list or with the
  exception of the oracle, with the states it has held, in order, and with the history.
\<close>

record reduction_state =
  rs_target :: "string list"
  rs_granularity :: nat
  rs_invocations :: nat

type_synonym reduction = "(error + string list) \<times> reduction_state list \<times> event list"

definition held :: "reduction_state \<Rightarrow> reduction \<Rightarrow> reduction" where
  "held st r = (case r of (res, sts, u) \<Rightarrow> (res, st # sts, u))"

definition states :: "reduction \<Rightarrow> reduction_state list" where
  "states r = fst (snd r)"

text \<open>
  Modelled from the spec: ``granularity is bounded by \<open>len(target)\<close>''. The number
  of chunks of a round is the granularity, at most the length of the target and at
  least two.
\<close>

definition chunk_count :: "reduction_state \<Rightarrow> nat" where
  "chunk_count st = max 2 (min (rs_granularity st) (length (rs_target st)))"

text \<open>
  Modelled from the spec: steps 3 to 5. A target with fewer than two elements cannot be
  partitioned, and is final. When a chunk alone reproduces the anomaly it becomes the
  target and the granularity is reset to 2; when a complement does, it becomes the
  target and the granularity is kept or reduced by one (the spec leaves the choice open;
  \<open>by_one\<close> makes it); when nothing does, the granularity is doubled, bounded by the
  length of the target, while it is below that length, and otherwise the run ends. An
  exception of the oracle ends the run.
\<close>

function reduce_loop :: "bool \<Rightarrow> oracle_fn \<Rightarrow> reduction_state \<Rightarrow> event list \<Rightarrow> reduction" where
  "reduce_loop by_one orc st t =
     (let xs = rs_target st;
          n = chunk_count st
      in if length xs < 2 then (Inr xs, [st], t)
         else
           (case try_chunks orc xs n (probes n) (rs_invocations st) t of
              (Inl e, c, u) \<Rightarrow> (Inl e, [st\<lparr>rs_invocations := c\<rparr>], u)
            | (Inr (ChunkFails i), c, u) \<Rightarrow>
                held st (reduce_loop by_one orc
                  \<lparr>rs_target = chunk n xs i, rs_granularity = 2, rs_invocations = c\<rparr> u)
            | (Inr (ComplementFails i), c, u) \<Rightarrow>
                held st (reduce_loop by_one orc
                  \<lparr>rs_target = chunk_complement n xs i,
                   rs_granularity = (if by_one then max (n - 1) 2 else n),
                   rs_invocations = c\<rparr> u)
            | (Inr NothingFails, c, u) \<Rightarrow>
                if n < length xs
                then held st (reduce_loop by_one orc
                  \<lparr>rs_target = xs, rs_granularity = min (2 * n) (length xs),
                   rs_invocations = c\<rparr> u)
                else (Inr xs, [st\<lparr>rs_invocations := c\<rparr>], u)))"
  by pat_completeness auto

text \<open>
  Modelled from the spec: \<open>reduce(list, oracle)\<close>, which starts from the input list
  with granularity 2 and no invocation.
\<close>

definition reduce :: "bool \<Rightarrow> oracle_fn \<Rightarrow> string list \<Rightarrow> event list \<Rightarrow> reduction" where
  "reduce by_one orc xs t =
     reduce_loop by_one orc \<lparr>rs_target = xs, rs_granularity = 2, rs_invocations = 0\<rparr> t"

text \<open>
  Modelled from the spec: the contract of the oracle, which ``must satisfy the
  anomaly-preservation invariant for whichever part it reports as still-failing'': the
  part reported (the prefix with KeepPrefix, the suffix with KeepSuffix) has the
  classification \<open>c\<close>.
\<close>

definition preserves_anomaly :: "(string list \<Rightarrow> 'c) \<Rightarrow> 'c \<Rightarrow> oracle_fn \<Rightarrow> bool" where
  "preserves_anomaly classify c orc =
     (\<forall>p s t x u.
        (orc p s t = (Inr (TESTRESULT_KEEPPREFIX, x), u) \<longrightarrow> classify p = c) \<and>
        (orc p s t = (Inr (TESTRESULT_KEEPSUFFIX, x), u) \<longrightarrow> classify s = c))"

text \<open>
  Modelled from the spec: the oracle of its scenarios A and B, which reports an anomaly
  exactly for a list that contains the element \<open>e\<close>, and tests the suffix first.
\<close>

definition scenario_oracle :: "string \<Rightarrow> oracle_fn" where
  "scenario_oracle e prefix suffix =
     ret (if e \<in> set suffix then TESTRESULT_KEEPSUFFIX
          else if e \<in> set prefix then TESTRESULT_KEEPPREFIX
          else TESTRESULT_NOFAILURE, prefix, suffix)"

text \<open>
  The oracle calls a run may still make from a target of length \<open>L\<close> with granularity
  \<open>g\<close> are bounded by this potential; and \<open>all_held\<close> says that a predicate holds
  of every state of a run and of a state with the list the run returns.
\<close>

definition invocation_bound :: "nat \<Rightarrow> nat \<Rightarrow> nat" where
  "invocation_bound L g =
     (if L < 2 then 0
      else 4 * L * L + 4 * (L - max 2 (min g L)) + (if max 2 (min g L) < L then 2 * L else 0))"

definition all_held :: "(reduction_state \<Rightarrow> bool) \<Rightarrow> reduction \<Rightarrow> bool" where
  "all_held I r =
     (list_all I (states r) \<and> (\<forall>ys. fst r = Inr ys \<longrightarrow> (\<exists>s. I s \<and> rs_target s = ys)))"

section \<open>Properties\<close>

text \<open>
  C9. A dry run of \<open>br_call\<close> launches nothing: for every argument list, every echo flag
  and every history, the call returns exit code 0 with the empty fingerprint, and the
  only event it adds is the printed command line.
\<close>

theorem br_call_dry_run:
  "br_call E args True echo t =
     (Inr \<lparr>exit_code = 0, fingerprint = ''''\<rparr>, t @ [Print (''BRCALL: '' @ str_join '' '' args)])"
  by (simp add: br_call_def bnd_def emit_def ret_def)

subsection \<open>Evaluation facts shared by the concrete runs\<close>

lemmas io_defs = bnd_def ret_def throw_def emit_def

lemmas demo_defs =
  demo_env_def demo_config_def demo_extractor_def demo_tester_def demo_reducer_def
  ReduceMiscompilingFunctions_def

lemmas extract_defs =
  path_join_def get_output_filename_stems_def get_suffixed_filename_def
  invoke_with_functions_def SILFuncExtractorInvoker_invoke_def
  SILFuncExtractorInvoker_cmdline_def sanity_check_file_exists_def base_args_def
  sil_func_extractor_def SwiftTools_get_tool_def opt_arg_def br_call_def
  call_fingerprint_def DRY_RUN_def ECHO_CALLS_def

lemma foldl_hash_update: "foldl hash_update h xs = h @ concat xs"
  by (induction xs arbitrary: h) (simp_all add: hash_update_def)

lemma demo_test_funclist:
  "\<exists>u. test_funclist demo_env demo_reducer funcs t = (Inr (concat funcs = ''g''), u)"
  by (simp add: test_funclist_def get_funclist_hash_def extract_defs foldl_hash_update
      hash_new_def demo_defs io_defs Let_def)

subsection \<open>The fingerprinter\<close>




subsection \<open>Naming by content\<close>

text \<open>
  C3, as stated, fails: the digest is fed the elements one after the other with nothing
  between them, so the two distinct lists \<open>[ab, c]\<close> and \<open>[a, bc]\<close> get the same
  identifier, whatever the digest function is.
\<close>

theorem get_funclist_hash_collision:
  "[''ab'', ''c''] \<noteq> [''a'', ''bc''] \<and>
   (\<forall>E. get_funclist_hash E [''ab'', ''c''] = get_funclist_hash E [''a'', ''bc''])"
  by (simp add: get_funclist_hash_def hash_update_def hash_new_def)

text \<open>
  C3, amended. \<open>get_funclist_hash\<close> is the digest of the concatenation of the elements
  in their order: two lists with the same concatenation get the same identifier, and,
  when the digest has no collisions, two lists with different concatenations get
  different identifiers.
\<close>

theorem get_funclist_hash_concat:
  "get_funclist_hash E xs = md5_hexdigest E (concat xs) \<and>
   (concat xs = concat ys \<longrightarrow> get_funclist_hash E xs = get_funclist_hash E ys) \<and>
   (inj (md5_hexdigest E) \<and> concat xs \<noteq> concat ys \<longrightarrow>
      get_funclist_hash E xs \<noteq> get_funclist_hash E ys)"
  by (auto simp: get_funclist_hash_def foldl_hash_update hash_new_def dest: injD)

theorem get_funclist_hash_concat_witness:
  "get_funclist_hash demo_env [''f'', ''g''] = get_funclist_hash demo_env [''fg''] \<and>
   get_funclist_hash demo_env [''f'', ''g''] \<noteq> get_funclist_hash demo_env [''g'', ''f'']"
proof -
  have inj: "inj (md5_hexdigest demo_env)"
    by (simp add: demo_env_def inj_def)
  have "concat [''f'', ''g''] = concat [''fg'']" by simp
  with get_funclist_hash_concat [of demo_env "[''f'', ''g'']" "[''fg'']"]
  have a: "get_funclist_hash demo_env [''f'', ''g''] = get_funclist_hash demo_env [''fg'']"
    by blast
  have "concat [''f'', ''g''] \<noteq> concat [''g'', ''f'']" by simp
  with get_funclist_hash_concat [of demo_env "[''f'', ''g'']" "[''g'', ''f'']"] inj
  have b: "get_funclist_hash demo_env [''f'', ''g'']
             \<noteq> get_funclist_hash demo_env [''g'', ''f'']"
    by blast
  from a b show ?thesis by simp
qed

subsection \<open>The oracle\<close>

text \<open>
  C4. \<open>run_test\<close> tests the suffix first, and only if it is not empty: when that leg
  reports the anomaly the answer is KeepSuffix and the prefix is not tested. Otherwise
  it tests the prefix, again only if it is not empty, from the history the first leg
  left: the answer is KeepPrefix when that leg reports the anomaly and NoFailure when it
  does not. An empty leg counts as no anomaly and leaves the history as it is, so
  \<open>run_test(prefix, [])\<close> never answers KeepSuffix, \<open>run_test([], suffix)\<close> never
  answers KeepPrefix, and \<open>run_test([], [])\<close> does nothing.
\<close>

theorem run_test_leg_order:
  "(\<forall>t1. (if suffix = [] then (Inr False, t) else test_funclist E r suffix t) = (Inr True, t1)
       \<longrightarrow> run_test E r prefix suffix t = (Inr (TESTRESULT_KEEPSUFFIX, prefix, suffix), t1)) \<and>
   (\<forall>t1 t2.
       (if suffix = [] then (Inr False, t) else test_funclist E r suffix t) = (Inr False, t1) \<and>
       (if prefix = [] then (Inr False, t1) else test_funclist E r prefix t1) = (Inr True, t2)
       \<longrightarrow> run_test E r prefix suffix t = (Inr (TESTRESULT_KEEPPREFIX, prefix, suffix), t2)) \<and>
   (\<forall>t1 t2.
       (if suffix = [] then (Inr False, t) else test_funclist E r suffix t) = (Inr False, t1) \<and>
       (if prefix = [] then (Inr False, t1) else test_funclist E r prefix t1) = (Inr False, t2)
       \<longrightarrow> run_test E r prefix suffix t = (Inr (TESTRESULT_NOFAILURE, prefix, suffix), t2)) \<and>
   (\<forall>x u. run_test E r prefix [] t \<noteq> (Inr (TESTRESULT_KEEPSUFFIX, x), u)) \<and>
   (\<forall>x u. run_test E r [] suffix t \<noteq> (Inr (TESTRESULT_KEEPPREFIX, x), u)) \<and>
   run_test E r [] [] t = (Inr (TESTRESULT_NOFAILURE, [], []), t)"
  by (auto simp: run_test_def bnd_def ret_def split: prod.splits sum.splits if_splits)

theorem run_test_leg_order_witness:
  "fst (run_test demo_env demo_reducer [''f''] [''g''] [])
     = Inr (TESTRESULT_KEEPSUFFIX, [''f''], [''g'']) \<and>
   fst (run_test demo_env demo_reducer [''g''] [''f''] [])
     = Inr (TESTRESULT_KEEPPREFIX, [''g''], [''f'']) \<and>
   fst (run_test demo_env demo_reducer [''f''] [''h''] [])
     = Inr (TESTRESULT_NOFAILURE, [''f''], [''h''])"
proof -
  obtain a where a: "test_funclist demo_env demo_reducer [''g''] [] = (Inr True, a)"
    using demo_test_funclist [of "[''g'']" "[]"] by auto
  obtain b where b: "test_funclist demo_env demo_reducer [''f''] [] = (Inr False, b)"
    using demo_test_funclist [of "[''f'']" "[]"] by auto
  obtain c where c: "test_funclist demo_env demo_reducer [''g''] b = (Inr True, c)"
    using demo_test_funclist [of "[''g'']" b] by auto
  obtain d where d: "test_funclist demo_env demo_reducer [''h''] [] = (Inr False, d)"
    using demo_test_funclist [of "[''h'']" "[]"] by auto
  obtain e where e: "test_funclist demo_env demo_reducer [''f''] d = (Inr False, e)"
    using demo_test_funclist [of "[''f'']" d] by auto
  have "run_test demo_env demo_reducer [''f''] [''g''] []
          = (Inr (TESTRESULT_KEEPSUFFIX, [''f''], [''g'']), a)"
    using run_test_leg_order [of "[''g'']" "[]" demo_env demo_reducer "[''f'']"] a by simp
  moreover have "run_test demo_env demo_reducer [''g''] [''f''] []
          = (Inr (TESTRESULT_KEEPPREFIX, [''g''], [''f'']), c)"
    using run_test_leg_order [of "[''f'']" "[]" demo_env demo_reducer "[''g'']"] b c by simp
  moreover have "run_test demo_env demo_reducer [''f''] [''h''] []
          = (Inr (TESTRESULT_NOFAILURE, [''f''], [''h'']), e)"
    using run_test_leg_order [of "[''h'']" "[]" demo_env demo_reducer "[''f'']"] d e by simp
  ultimately show ?thesis by simp
qed

text \<open>
  C10. Whenever \<open>run_test\<close> returns, the two lists beside the outcome tag are the
  prefix and the suffix it was called with, unchanged.
\<close>

theorem run_test_frame:
  "run_test E r prefix suffix t = (Inr (tag, p, s), u) \<Longrightarrow> p = prefix \<and> s = suffix"
  by (auto simp: run_test_def bnd_def ret_def split: prod.splits sum.splits if_splits)

theorem run_test_frame_witness:
  "\<exists>tag u. run_test demo_env demo_reducer [''f''] [''g''] [] = (Inr (tag, [''f''], [''g'']), u)"
proof -
  obtain a where a: "test_funclist demo_env demo_reducer [''g''] [] = (Inr True, a)"
    using demo_test_funclist [of "[''g'']" "[]"] by auto
  then have "run_test demo_env demo_reducer [''f''] [''g''] []
               = (Inr (TESTRESULT_KEEPSUFFIX, [''f''], [''g'']), a)"
    by (simp add: run_test_def bnd_def ret_def)
  with run_test_frame [of demo_env demo_reducer "[''f'']" "[''g'']" "[]"
         TESTRESULT_KEEPSUFFIX "[''f'']" "[''g'']" a]
  show ?thesis by blast
qed

subsection \<open>The scratch directory\<close>

lemma writes_append: "writes (a @ b) = writes a @ writes b"
  by (induction a rule: writes.induct) simp_all

lemma keeps_writesD: "keeps_writes m \<Longrightarrow> m t = (res, u) \<Longrightarrow> writes u = writes t"
  unfolding keeps_writes_def by (drule spec [of _ t]) simp

lemma keeps_writes_ret: "keeps_writes (ret x)"
  by (simp add: keeps_writes_def ret_def)

lemma keeps_writes_throw: "keeps_writes (throw e)"
  by (simp add: keeps_writes_def throw_def)

lemma keeps_writes_print: "keeps_writes (emit (Print s))"
  by (simp add: keeps_writes_def emit_def writes_append)

lemma keeps_writes_bnd:
  "keeps_writes m \<Longrightarrow> (\<And>x. keeps_writes (f x)) \<Longrightarrow> keeps_writes (bnd m f)"
  unfolding keeps_writes_def bnd_def
proof
  fix t
  assume m: "\<forall>t. writes (snd (m t)) = writes t" and f: "\<And>x. \<forall>t. writes (snd (f x t)) = writes t"
  obtain res u where mt: "m t = (res, u)" by (cases "m t")
  from m have "writes (snd (m t)) = writes t" by (rule spec)
  with mt have u: "writes u = writes t" by simp
  show "writes (snd (case m t of (Inl e, t') \<Rightarrow> (Inl e, t') | (Inr x, t') \<Rightarrow> f x t')) = writes t"
    using mt u f by (cases res) simp_all
qed

lemma keeps_writes_call_fingerprint: "keeps_writes (call_fingerprint E args es eo)"
  by (simp add: keeps_writes_def call_fingerprint_def Let_def writes_append split: option.splits)

lemma keeps_writes_br_call: "keeps_writes (br_call E args d e)"
  unfolding br_call_def
  by (intro keeps_writes_bnd) (simp_all add: keeps_writes_print keeps_writes_ret keeps_writes_call_fingerprint)

lemma keeps_writes_sanity: "keeps_writes (sanity_check_file_exists E f)"
  by (simp add: keeps_writes_def sanity_check_file_exists_def)

lemma keeps_writes_get_tool: "keeps_writes (SwiftTools_get_tool E tls name)"
  by (simp add: keeps_writes_def SwiftTools_get_tool_def Let_def)

lemma keeps_writes_base_args: "keeps_writes tool \<Longrightarrow> keeps_writes (base_args tool cfg a b)"
  unfolding base_args_def by (intro keeps_writes_bnd) (simp_all add: keeps_writes_ret)

lemma keeps_writes_invoke_with_functions:
  "keeps_writes (invoke_with_functions E ivk p out i)"
  unfolding invoke_with_functions_def SILFuncExtractorInvoker_invoke_def
    SILFuncExtractorInvoker_cmdline_def sil_func_extractor_def
  by (intro keeps_writes_bnd keeps_writes_sanity keeps_writes_base_args keeps_writes_get_tool
      keeps_writes_ret keeps_writes_br_call)

lemma bnd_cases:
  "bnd m f t = (case m t of (Inl e, u) \<Rightarrow> (Inl e, u) | (Inr x, u) \<Rightarrow> f x u)"
  by (simp add: bnd_def)

lemma br_call_run:
  "br_call E cmd DRY_RUN ECHO_CALLS t = (Inr result, u) \<Longrightarrow>
     \<exists>p. popen E (t @ [Print (''BRCALL: '' @ str_join '' '' cmd)]) cmd = Some p \<and>
         exit_code result = p_exit p \<and>
         u = t @ [Print (''BRCALL: '' @ str_join '' '' cmd), Spawn cmd,
                  Print ''STDERR:'', Print (p_stderr p), Print ''STDOUT:'', Print (p_stdout p)]"
  by (auto simp: br_call_def call_fingerprint_def DRY_RUN_def ECHO_CALLS_def bnd_def emit_def
        Let_def split: option.splits)

lemma spawns_append: "spawns (a @ b) = spawns a @ spawns b"
  by (induction a rule: spawns.induct) simp_all

lemma extractor_cmdline_reads:
  "SILFuncExtractorInvoker_cmdline E ivk inp p emit_sib out i t = (res, u) \<Longrightarrow> u = t"
  by (auto simp: SILFuncExtractorInvoker_cmdline_def base_args_def sil_func_extractor_def
        SwiftTools_get_tool_def sanity_check_file_exists_def bnd_def ret_def Let_def
      split: if_splits)

lemma extractor_cmdline_shape:
  "SILFuncExtractorInvoker_cmdline E ivk inp p emit_sib out i t = (Inr cmd, u) \<Longrightarrow>
     \<exists>ba. cmd = ba @ [inp, ''-o'', out, ''-func-file='' @ p] @ (if i then [''-invert''] else [])"
  by (auto simp: SILFuncExtractorInvoker_cmdline_def base_args_def sil_func_extractor_def
        SwiftTools_get_tool_def sanity_check_file_exists_def bnd_def ret_def Let_def
      split: if_splits)

lemma invoke_with_functions_run:
  assumes "invoke_with_functions E ivk p out i t = (Inr x, u)"
  shows "\<exists>ba. spawns u = spawns t @
            [ba @ [input_file ivk, ''-o'', out, ''-func-file='' @ p]
                @ (if i then [''-invert''] else [])]"
proof -
  obtain res v where
    c: "SILFuncExtractorInvoker_cmdline E ivk (input_file ivk) p True out i t = (res, v)"
    by (cases "SILFuncExtractorInvoker_cmdline E ivk (input_file ivk) p True out i t")
  then have v: "v = t" by (rule extractor_cmdline_reads)
  from assms c obtain cmd where cmd: "res = Inr cmd"
    and run: "br_call E cmd DRY_RUN ECHO_CALLS v = (Inr x, u)"
    by (cases res)
       (simp_all add: invoke_with_functions_def SILFuncExtractorInvoker_invoke_def bnd_def)
  from extractor_cmdline_shape [OF c [unfolded cmd]] obtain ba where
    ba: "cmd = ba @ [input_file ivk, ''-o'', out, ''-func-file='' @ p]
                  @ (if i then [''-invert''] else [])"
    by blast
  from br_call_run [OF run] v have "spawns u = spawns t @ [cmd]"
    by (auto simp: spawns_append)
  with ba show ?thesis by blast
qed

text \<open>
  C8. For every candidate list that is tested, the two artifact stems derived from the
  list's hash \<open>h\<close> are \<open>h\<close> and \<open>h_invert\<close>. When the list file \<open>func_list_h\<close> in
  the work directory cannot be opened, the test raises \<open>IOError\<close> and has written,
  printed and launched nothing. Otherwise, up to the call of the tester (or up to the
  exception that a failed check of the extraction raises), exactly one file has been
  written: \<open>func_list_h\<close>, holding the elements in order, one per line. When the tester
  is reached, exactly two processes have been launched since the test began, both on the
  list file: the first extracts into the file named after \<open>h\<close> and is not inverted (the
  candidate subset), the second extracts into the file named after \<open>h_invert\<close> with
  \<open>-invert\<close> (the complement); and the tester is called with these two files and
  the two stems.
\<close>

theorem test_funclist_layout:
  "get_output_filename_stems (get_funclist_hash E funcs)
     = (get_funclist_hash E funcs, get_funclist_hash E funcs @ ''_invert'') \<and>
   (if open_w E t (path_join (work_dir (config (silextract r)))
                     (''func_list_'' @ get_funclist_hash E funcs))
    then
      (\<exists>u. writes u = writes t @
            [(path_join (work_dir (config (silextract r)))
                (''func_list_'' @ get_funclist_hash E funcs),
              concat (map (\<lambda>f. f @ [newline]) funcs))] \<and>
        ((\<exists>ba1 ba2.
            spawns u = spawns t @
              [ba1 @ [input_file (silextract r), ''-o'',
                      get_suffixed_filename (silextract r) (get_funclist_hash E funcs) None,
                      ''-func-file='' @ path_join (work_dir (config (silextract r)))
                                          (''func_list_'' @ get_funclist_hash E funcs)],
               ba2 @ [input_file (silextract r), ''-o'',
                      get_suffixed_filename (silextract r)
                        (get_funclist_hash E funcs @ ''_invert'') None,
                      ''-func-file='' @ path_join (work_dir (config (silextract r)))
                                          (''func_list_'' @ get_funclist_hash E funcs),
                      ''-invert'']] \<and>
            test_funclist E r funcs t =
              tester_call (tester r)
                (get_suffixed_filename (silextract r) (get_funclist_hash E funcs) None)
                (get_funclist_hash E funcs)
                (get_suffixed_filename (silextract r)
                   (get_funclist_hash E funcs @ ''_invert'') None)
                (get_funclist_hash E funcs @ ''_invert'') u)
         \<or> (\<exists>e. test_funclist E r funcs t = (Inl e, u))))
    else test_funclist E r funcs t
           = (Inl (IOError (path_join (work_dir (config (silextract r)))
                              (''func_list_'' @ get_funclist_hash E funcs))), t))"
proof -
  let ?h = "get_funclist_hash E funcs"
  let ?path = "path_join (work_dir (config (silextract r))) (''func_list_'' @ ?h)"
  let ?content = "concat (map (\<lambda>f. f @ [newline]) funcs)"
  let ?out = "get_suffixed_filename (silextract r) ?h None"
  let ?outi = "get_suffixed_filename (silextract r) (?h @ ''_invert'') None"
  let ?t0 = "t @ [Write ?path ?content,
     Print (''Checking to see if the program is misoptimized with func list: '' @ ?path)]"
  have stems: "get_output_filename_stems ?h = (?h, ?h @ ''_invert'')"
    by (simp add: get_output_filename_stems_def Let_def)
  show ?thesis
  proof (cases "open_w E t ?path")
    case False
    then have "test_funclist E r funcs t = (Inl (IOError ?path), t)"
      unfolding test_funclist_def Let_def by (simp add: bnd_cases)
    with False stems show ?thesis by simp
  next
    case True
    have w0: "writes ?t0 = writes t @ [(?path, ?content)]"
      by (simp add: writes_append)
    have p0: "spawns ?t0 = spawns t"
      by (simp add: spawns_append)
    have unfold: "test_funclist E r funcs t =
        bnd (invoke_with_functions E (silextract r) ?path ?out False) (\<lambda>_.
        bnd (invoke_with_functions E (silextract r) ?path ?outi True) (\<lambda>_.
          tester_call (tester r) ?out ?h ?outi (?h @ ''_invert''))) ?t0"
      unfolding test_funclist_def Let_def stems
      using True by (simp add: bnd_cases emit_def)
    obtain r1 t1 where s1: "invoke_with_functions E (silextract r) ?path ?out False ?t0 = (r1, t1)"
      by (cases "invoke_with_functions E (silextract r) ?path ?out False ?t0")
    have w1: "writes t1 = writes ?t0"
      using keeps_writesD [OF keeps_writes_invoke_with_functions s1] .
    obtain r2 t2 where s2: "invoke_with_functions E (silextract r) ?path ?outi True t1 = (r2, t2)"
      by (cases "invoke_with_functions E (silextract r) ?path ?outi True t1")
    have w2: "writes t2 = writes t1"
      using keeps_writesD [OF keeps_writes_invoke_with_functions s2] .
    have "\<exists>u. writes u = writes t @ [(?path, ?content)] \<and>
        ((\<exists>ba1 ba2.
            spawns u = spawns t @
              [ba1 @ [input_file (silextract r), ''-o'', ?out, ''-func-file='' @ ?path],
               ba2 @ [input_file (silextract r), ''-o'', ?outi, ''-func-file='' @ ?path,
                      ''-invert'']] \<and>
            test_funclist E r funcs t =
              tester_call (tester r) ?out ?h ?outi (?h @ ''_invert'') u)
         \<or> (\<exists>e. test_funclist E r funcs t = (Inl e, u)))"
    proof (cases r1)
      case (Inl e)
      then have "test_funclist E r funcs t = (Inl e, t1)"
        using unfold s1 by (simp add: bnd_cases)
      with w0 w1 show ?thesis by auto
    next
      case a: (Inr x)
      show ?thesis
      proof (cases r2)
        case (Inl e)
        then have "test_funclist E r funcs t = (Inl e, t2)"
          using unfold s1 s2 a by (simp add: bnd_cases)
        with w0 w1 w2 show ?thesis by auto
      next
        case b: (Inr y)
        then have run: "test_funclist E r funcs t
            = tester_call (tester r) ?out ?h ?outi (?h @ ''_invert'') t2"
          using unfold s1 s2 a by (simp add: bnd_cases)
        from invoke_with_functions_run [OF s1 [unfolded a]] obtain ba1 where
          c1: "spawns t1 = spawns ?t0 @
                 [ba1 @ [input_file (silextract r), ''-o'', ?out, ''-func-file='' @ ?path]]"
          by auto
        from invoke_with_functions_run [OF s2 [unfolded b]] obtain ba2 where
          c2: "spawns t2 = spawns t1 @
                 [ba2 @ [input_file (silextract r), ''-o'', ?outi, ''-func-file='' @ ?path,
                         ''-invert'']]"
          by auto
        have sp: "spawns t2 = spawns t @
              [ba1 @ [input_file (silextract r), ''-o'', ?out, ''-func-file='' @ ?path],
               ba2 @ [input_file (silextract r), ''-o'', ?outi, ''-func-file='' @ ?path,
                      ''-invert'']]"
          unfolding c2 c1 p0 by simp
        have wr: "writes t2 = writes t @ [(?path, ?content)]"
          using w0 w1 w2 by simp
        from wr sp run show ?thesis by blast
      qed
    qed
    with True stems show ?thesis by simp
  qed
qed

theorem test_funclist_layout_witness:
  "test_funclist (demo_env\<lparr>open_w := (\<lambda>t f. False)\<rparr>) demo_reducer [''f'', ''g''] []
     = (Inl (IOError ''/w/func_list_fg''), []) \<and>
   (\<exists>u ba1 ba2.
      writes u = [(''/w/func_list_fg'', [CHR ''f'', newline, CHR ''g'', newline])] \<and>
      spawns u =
        [ba1 @ [''m.sib'', ''-o'', ''/w/m_fg.sib'', ''-func-file=/w/func_list_fg''],
         ba2 @ [''m.sib'', ''-o'', ''/w/m_fg_invert.sib'', ''-func-file=/w/func_list_fg'',
                ''-invert'']] \<and>
      test_funclist demo_env demo_reducer [''f'', ''g''] [] = (Inr False, u))"
proof -
  have ev: "get_funclist_hash demo_env [''f'', ''g''] = ''fg''"
      "get_funclist_hash (demo_env\<lparr>open_w := (\<lambda>t f. False)\<rparr>) [''f'', ''g''] = ''fg''"
      "work_dir (config (silextract demo_reducer)) = ''/w''"
      "input_file (silextract demo_reducer) = ''m.sib''"
      "get_suffixed_filename (silextract demo_reducer) ''fg'' None = ''/w/m_fg.sib''"
      "get_suffixed_filename (silextract demo_reducer) ''fg_invert'' None = ''/w/m_fg_invert.sib''"
      "path_join ''/w'' ''func_list_fg'' = ''/w/func_list_fg''"
    by (simp_all add: get_funclist_hash_def hash_new_def hash_update_def demo_defs
          get_suffixed_filename_def path_join_def)
  have closed: "test_funclist (demo_env\<lparr>open_w := (\<lambda>t f. False)\<rparr>) demo_reducer [''f'', ''g''] []
     = (Inl (IOError ''/w/func_list_fg''), [])"
    using test_funclist_layout [of "demo_env\<lparr>open_w := (\<lambda>t f. False)\<rparr>" "[''f'', ''g'']" "[]" demo_reducer]
    by (simp add: ev)
  have op: "open_w demo_env [] ''/w/func_list_fg''" by (simp add: demo_env_def)
  from test_funclist_layout [of demo_env "[''f'', ''g'']" "[]" demo_reducer]
  obtain u where
    w: "writes u = [(''/w/func_list_fg'', [CHR ''f'', newline, CHR ''g'', newline])]" and
    d: "(\<exists>ba1 ba2. spawns u =
        [ba1 @ [''m.sib'', ''-o'', ''/w/m_fg.sib'', ''-func-file=/w/func_list_fg''],
         ba2 @ [''m.sib'', ''-o'', ''/w/m_fg_invert.sib'', ''-func-file=/w/func_list_fg'',
                ''-invert'']] \<and>
        test_funclist demo_env demo_reducer [''f'', ''g''] [] =
          tester_call (tester demo_reducer) ''/w/m_fg.sib'' ''fg'' ''/w/m_fg_invert.sib''
            ''fg_invert'' u)
       \<or> (\<exists>e. test_funclist demo_env demo_reducer [''f'', ''g''] [] = (Inl e, u))"
    unfolding ev using op by (auto simp: ev)
  from demo_test_funclist [of "[''f'', ''g'']" "[]"] have
    ok: "\<And>e v. test_funclist demo_env demo_reducer [''f'', ''g''] [] \<noteq> (Inl e, v)"
    by auto
  have tc: "tester_call (tester demo_reducer) ''/w/m_fg.sib'' ''fg'' ''/w/m_fg_invert.sib''
            ''fg_invert'' u = (Inr False, u)"
    by (simp add: demo_defs ret_def)
  from d ok tc w closed show ?thesis by auto
qed

subsection \<open>The driver\<close>

lemma SILOptInvoker_cmdline_reads:
  "SILOptInvoker_cmdline E ivk inp passes emit_sib out t = (res, u) \<Longrightarrow> u = t"
  by (auto simp: SILOptInvoker_cmdline_def base_args_def sil_opt_def SwiftTools_get_tool_def
        sanity_check_file_exists_def bnd_def ret_def throw_def Let_def
      split: if_splits option.splits)

lemma SILOptInvoker_cmdline_passes:
  "SILOptInvoker_cmdline E ivk inp passes emit_sib out t = (Inr cmd, u) \<Longrightarrow>
     \<exists>ba ps. passes = Some ps \<and> cmd = ba @ [inp, ''-o'', out] @ extra_args ivk @ ps"
  by (auto simp: SILOptInvoker_cmdline_def base_args_def sil_opt_def SwiftTools_get_tool_def
        sanity_check_file_exists_def bnd_def ret_def throw_def Let_def
      split: if_splits option.splits)

lemma invoke_with_passlist_shape:
  assumes "SILOptInvoker_invoke_with_passlist E soi passes out t1 = (Inr result, t2)"
  shows "\<exists>ba ps p cmd.
           passes = Some ps \<and> cmd = ba @ [input_file soi, ''-o'', out] @ extra_args soi @ ps \<and>
           popen E (t1 @ [Print (''BRCALL: '' @ str_join '' '' cmd)]) cmd = Some p \<and>
           exit_code result = p_exit p \<and>
           t2 = t1 @ [Print (''BRCALL: '' @ str_join '' '' cmd), Spawn cmd,
                      Print ''STDERR:'', Print (p_stderr p), Print ''STDOUT:'', Print (p_stdout p)]"
proof -
  obtain res u where c: "SILOptInvoker_cmdline E soi (input_file soi) passes True out t1 = (res, u)"
    by (cases "SILOptInvoker_cmdline E soi (input_file soi) passes True out t1")
  then have u: "u = t1" by (rule SILOptInvoker_cmdline_reads)
  from assms c obtain cmd where cmd: "res = Inr cmd"
    and run: "br_call E cmd DRY_RUN ECHO_CALLS u = (Inr result, t2)"
    by (cases res)
       (simp_all add: SILOptInvoker_invoke_with_passlist_def SILOptInvoker_invoke_def bnd_def)
  from SILOptInvoker_cmdline_passes [OF c [unfolded cmd]] obtain ba ps where
    ps: "passes = Some ps" "cmd = ba @ [input_file soi, ''-o'', out] @ extra_args soi @ ps"
    by blast
  from br_call_run [OF run] u ps show ?thesis by blast
qed

text \<open>
  C7. The driver builds the optimizer invoker and then runs the pipeline under test on
  the unreduced input, with the pass list of the command line. When that run exits with
  0, the driver prints the success line and returns: nothing else is added to the
  history, and the result does not depend on the tester or on the reducer, neither of
  which is built. Only when the run exits with a nonzero code does the driver go on: it
  builds the function extractor, then the tester, and calls \<open>function_bug_reducer\<close>.
\<close>

theorem base_case_guard:
  assumes init: "SILOptInvoker_init E (SILToolInvokerConfig E a)
                   \<lparr>swift_build_dir = arg_swift_build_dir a\<rparr> (arg_input_file a)
                   (arg_extra_args a) t = (Inr soi, t1)"
      and base: "SILOptInvoker_invoke_with_passlist E soi (arg_pass_list a)
                   (get_suffixed_filename soi ''base_case'' None) t1 = (Inr result, t2)"
  shows "(exit_code result = 0 \<longrightarrow>
            (\<exists>ps. arg_pass_list a = Some ps \<and>
               invoke_function_bug_reducer E optimizer_tester reduce_list a t
                 = (Inr (), t2 @ [Print (''Success with PassList: '' @ str_join '' '' ps)]))) \<and>
         (exit_code result \<noteq> 0 \<longrightarrow>
            invoke_function_bug_reducer E optimizer_tester reduce_list a t
              = bnd (SILFuncExtractorInvoker_init E (SILToolInvokerConfig E a)
                       \<lparr>swift_build_dir = arg_swift_build_dir a\<rparr> (arg_input_file a))
                  (\<lambda>sxi. bnd (optimizer_tester soi)
                  (\<lambda>tst. function_bug_reducer E reduce_list (arg_input_file a)
                            \<lparr>nm_config = SILToolInvokerConfig E a,
                             nm_tools = \<lparr>swift_build_dir = arg_swift_build_dir a\<rparr>\<rparr>
                            soi sxi (arg_pass_list a) tst)) t2)"
proof -
  from invoke_with_passlist_shape [OF base] obtain ps where ps: "arg_pass_list a = Some ps"
    by blast
  show ?thesis
    using init base ps
    by (simp add: invoke_function_bug_reducer_def Let_def bnd_def emit_def)
qed


theorem base_case_guard_witness:
  "fst (invoke_function_bug_reducer demo_env (\<lambda>soi. throw (NameError ''OptimizerTester''))
          (\<lambda>oracle xs. ret (True, xs)) (demo_args [''-p'']) []) = Inr () \<and>
   fst (invoke_function_bug_reducer demo_env (\<lambda>soi. throw (NameError ''OptimizerTester''))
          (\<lambda>oracle xs. ret (True, xs)) (demo_args [''-bad-pass'']) [])
     = Inl (NameError ''OptimizerTester'')"
proof -
  let ?soi = "demo_extractor\<lparr>input_file := ''/w/m_initial.sib''\<rparr>"
  let ?ot = "\<lambda>soi::invoker. (throw (NameError ''OptimizerTester'') :: tester_obj io)"
  let ?rl = "(\<lambda>oracle xs. ret (True, xs)) :: reduce_list_fn"
  have init: "SILOptInvoker_init demo_env (SILToolInvokerConfig demo_env (demo_args ps))
                \<lparr>swift_build_dir = arg_swift_build_dir (demo_args ps)\<rparr>
                (arg_input_file (demo_args ps)) (arg_extra_args (demo_args ps)) []
              = (Inr ?soi, snd (SILOptInvoker_init demo_env
                   (SILToolInvokerConfig demo_env (demo_args ps))
                   \<lparr>swift_build_dir = arg_swift_build_dir (demo_args ps)\<rparr>
                   (arg_input_file (demo_args ps)) (arg_extra_args (demo_args ps)) []))"
    (is "_ = (_, ?t1)") for ps
    by (simp add: SILOptInvoker_init_def SILConstantInputToolInvoker_init_def
        SILToolInvokerConfig_def maybe_abspath_def demo_args_def check_call_def basename_def
        splitext_def sanity_check_file_exists_def or_empty_def get_suffixed_filename_def
        path_join_def SILOptInvoker_invoke_def SILOptInvoker_cmdline_def base_args_def
        sil_opt_def SwiftTools_get_tool_def opt_arg_def br_call_def call_fingerprint_def
        DRY_RUN_def ECHO_CALLS_def demo_defs io_defs Let_def)
  have base: "\<exists>t2. SILOptInvoker_invoke_with_passlist demo_env ?soi (arg_pass_list (demo_args ps))
                (get_suffixed_filename ?soi ''base_case'' None) t1
              = (Inr \<lparr>exit_code = (if ''-bad-pass'' \<in> set ps then 1 else 0),
                       fingerprint = (if ''-bad-pass'' \<in> set ps then ''1out'' else ''0out'')\<rparr>, t2)"
    for ps t1
    by (simp add: SILOptInvoker_invoke_with_passlist_def demo_args_def
        get_suffixed_filename_def sanity_check_file_exists_def
        path_join_def SILOptInvoker_invoke_def SILOptInvoker_cmdline_def base_args_def
        sil_opt_def SwiftTools_get_tool_def opt_arg_def br_call_def call_fingerprint_def
        DRY_RUN_def ECHO_CALLS_def hash_new_def hash_update_def demo_defs io_defs Let_def)
  from base [of "[''-p'']"] obtain t2 where
    b1: "SILOptInvoker_invoke_with_passlist demo_env ?soi (arg_pass_list (demo_args [''-p'']))
           (get_suffixed_filename ?soi ''base_case'' None)
           (snd (SILOptInvoker_init demo_env
                   (SILToolInvokerConfig demo_env (demo_args [''-p'']))
                   \<lparr>swift_build_dir = arg_swift_build_dir (demo_args [''-p''])\<rparr>
                   (arg_input_file (demo_args [''-p''])) (arg_extra_args (demo_args [''-p''])) []))
         = (Inr \<lparr>exit_code = 0, fingerprint = ''0out''\<rparr>, t2)"
    by auto
  from base_case_guard [OF init b1, of ?ot ?rl]
  have ok: "fst (invoke_function_bug_reducer demo_env ?ot ?rl (demo_args [''-p'']) []) = Inr ()"
    by auto
  from base [of "[''-bad-pass'']"] obtain t3 where
    b2: "SILOptInvoker_invoke_with_passlist demo_env ?soi
           (arg_pass_list (demo_args [''-bad-pass'']))
           (get_suffixed_filename ?soi ''base_case'' None)
           (snd (SILOptInvoker_init demo_env
                   (SILToolInvokerConfig demo_env (demo_args [''-bad-pass'']))
                   \<lparr>swift_build_dir = arg_swift_build_dir (demo_args [''-bad-pass''])\<rparr>
                   (arg_input_file (demo_args [''-bad-pass'']))
                   (arg_extra_args (demo_args [''-bad-pass''])) []))
         = (Inr \<lparr>exit_code = 1, fingerprint = ''1out''\<rparr>, t3)"
    by auto
  have sx: "\<exists>sxi u. SILFuncExtractorInvoker_init demo_env
              (SILToolInvokerConfig demo_env (demo_args ps))
              \<lparr>swift_build_dir = arg_swift_build_dir (demo_args ps)\<rparr>
              (arg_input_file (demo_args ps)) t = (Inr sxi, u)" for ps t
    by (simp add: SILFuncExtractorInvoker_init_def SILConstantInputToolInvoker_init_def
        SILToolInvokerConfig_def demo_args_def check_call_def basename_def splitext_def
        sanity_check_file_exists_def demo_defs io_defs Let_def)
  from base_case_guard [OF init b2, of ?ot ?rl] sx [of "[''-bad-pass'']" t3]
  have bad: "fst (invoke_function_bug_reducer demo_env ?ot ?rl (demo_args [''-bad-pass'']) [])
               = Inl (NameError ''OptimizerTester'')"
    by (auto simp: bnd_def throw_def)
  from ok bad show ?thesis by simp
qed

subsection \<open>Failures of the setup steps\<close>

text \<open>
  The compile invoker treats a nonzero exit of the optimizer or of the code generator as
  fatal: both raise.
\<close>

lemma optimizer_failure_raises:
  "SILOptInvoker_invoke_with_passlist E (sil_opt_invoker oc) passes sib t = (Inr r, u) \<Longrightarrow>
   exit_code r \<noteq> 0 \<Longrightarrow>
   SwiftOptCompileInvoker_invoke_with_passlist E oc passes sib obj t
     = (Inl (RuntimeError ''Optimizer Compile Time Crasher?!''), u)"
  by (simp add: SwiftOptCompileInvoker_invoke_with_passlist_def bnd_def throw_def)

lemma codegen_failure_raises:
  "SILOptInvoker_invoke_with_passlist E (sil_opt_invoker oc) passes sib t = (Inr r, u) \<Longrightarrow>
   exit_code r = 0 \<Longrightarrow>
   SwiftLLVMGenInvoker_init E (oc_config oc) (oc_tools oc) sib (oc_extra_args oc) u
     = (Inr gen, u1) \<Longrightarrow>
   SwiftLLVMGenInvoker_invoke E gen obj u1 = (Inr r', u2) \<Longrightarrow>
   exit_code r' \<noteq> 0 \<Longrightarrow>
   SwiftOptCompileInvoker_invoke_with_passlist E oc passes sib obj t
     = (Inl (RuntimeError ''Swift LLVM Gen Compile Time Crasher?!''),
        u2 @ [PrintDict (exit_code r') (fingerprint r')])"
  by (simp add: SwiftOptCompileInvoker_invoke_with_passlist_def bnd_def throw_def emit_def)

text \<open>
  C5 does not hold for the extraction step. \<open>_test_funclist\<close> drops the results of
  both extractor runs: in a world where every extractor run exits with 1, the oracle
  still hands the two file names to the tester and \<open>run_test\<close> answers NoFailure for
  the candidate \<open>f\<close> and KeepSuffix for the candidate \<open>g\<close>, as if the extraction had
  succeeded.
\<close>

theorem extraction_failure_ignored:
  "fst (invoke_with_functions demo_env demo_extractor ''/w/func_list_f'' ''/w/m_f.sib'' False
          [Write ''/w/func_list_f'' [CHR ''f'', newline]])
     = Inr \<lparr>exit_code = 1, fingerprint = ''1out''\<rparr> \<and>
   fst (run_test demo_env demo_reducer [] [''f''] [])
     = Inr (TESTRESULT_NOFAILURE, [], [''f'']) \<and>
   fst (run_test demo_env demo_reducer [] [''g''] [])
     = Inr (TESTRESULT_KEEPSUFFIX, [], [''g''])"
  by code_simp

subsection \<open>The minimization engine\<close>

lemma chunk_start_le: "i \<le> n \<Longrightarrow> 0 < n \<Longrightarrow> chunk_start len n i \<le> len"
proof -
  assume a: "i \<le> n" "0 < n"
  then have "i * len \<le> n * len" by simp
  then have "i * len div n \<le> n * len div n" by (rule div_le_mono)
  with a show ?thesis by (simp add: chunk_start_def)
qed

lemma chunk_start_less:
  assumes "0 < n" "n \<le> len"
  shows "chunk_start len n i < chunk_start len n (Suc i)"
proof -
  have "i * len div n * n + n \<le> i * len + len"
    by (rule add_mono) (use assms in simp_all)
  then have "Suc (i * len div n) * n \<le> Suc i * len" by (simp add: ac_simps)
  then have "Suc (i * len div n) \<le> Suc i * len div n"
    using assms by (simp only: less_eq_div_iff_mult_less_eq)
  then show ?thesis by (simp add: chunk_start_def)
qed

lemma length_chunk_complement:
  "0 < n \<Longrightarrow> n \<le> length xs \<Longrightarrow> i < n \<Longrightarrow> length (chunk_complement n xs i) < length xs"
  using chunk_start_less [of n "length xs" i] chunk_start_le [of "Suc i" n "length xs"]
    chunk_start_le [of i n "length xs"]
  by (simp add: chunk_complement_def)

lemma length_chunk:
  assumes "2 \<le> n" "n \<le> length xs" "i < n"
  shows "length (chunk n xs i) < length xs"
proof (cases i)
  case 0
  have "length xs div n < length xs" using assms by (intro div_less_dividend) auto
  with 0 show ?thesis by (simp add: chunk_def chunk_start_def)
next
  case (Suc j)
  have "chunk_start (length xs) n 0 < chunk_start (length xs) n (Suc 0)"
    using assms by (intro chunk_start_less) simp_all
  then have "0 < length xs div n" by (simp add: chunk_start_def)
  moreover have "length xs div n \<le> i * length xs div n"
    using Suc by (intro div_le_mono) simp
  ultimately have b: "0 < chunk_start (length xs) n i" by (simp add: chunk_start_def)
  have c: "chunk_start (length xs) n (Suc i) \<le> length xs"
    using assms by (intro chunk_start_le) simp_all
  have d: "0 < length xs" using assms by auto
  have "chunk_start (length xs) n (Suc i) - chunk_start (length xs) n i < length xs"
    using b c d by arith
  then show ?thesis by (simp add: chunk_def)
qed

lemma try_chunks_index:
  "try_chunks orc xs n ps c t = (Inr r, c', u) \<Longrightarrow>
     (r = ChunkFails i \<or> r = ComplementFails i) \<Longrightarrow> i \<in> fst ` set ps"
proof (induction ps arbitrary: c t)
  case Nil
  then show ?case by auto
next
  case (Cons p ps)
  obtain j sw where p: "p = (j, sw)" by (cases p)
  show ?case
    using Cons.prems Cons.IH unfolding p
    by (auto split: prod.splits sum.splits test_result.splits if_splits)
qed

lemma chunk_shrinks:
  assumes "\<not> length (rs_target st) < 2"
    and "(Inr (ChunkFails i), y) =
           try_chunks orc (rs_target st) (chunk_count st) (probes (chunk_count st)) c t"
  shows "length (chunk (chunk_count st) (rs_target st) i) < length (rs_target st)"
proof -
  obtain c' u where y: "y = (c', u)" by (cases y)
  from try_chunks_index [OF assms(2) [symmetric, unfolded y], of i]
  have "i < chunk_count st" by (auto simp: probes_def)
  with assms(1) show ?thesis
    unfolding chunk_count_def by (intro length_chunk) auto
qed

lemma complement_shrinks:
  assumes "\<not> length (rs_target st) < 2"
    and "(Inr (ComplementFails i), y) =
           try_chunks orc (rs_target st) (chunk_count st) (probes (chunk_count st)) c t"
  shows "length (chunk_complement (chunk_count st) (rs_target st) i) < length (rs_target st)"
proof -
  obtain c' u where y: "y = (c', u)" by (cases y)
  from try_chunks_index [OF assms(2) [symmetric, unfolded y], of i]
  have "i < chunk_count st" by (auto simp: probes_def)
  with assms(1) show ?thesis
    unfolding chunk_count_def by (intro length_chunk_complement) auto
qed

lemma chunk_count_doubled:
  assumes "\<not> length (rs_target st) < 2" and "chunk_count st < length (rs_target st)"
  shows "length (rs_target st)
           - chunk_count \<lparr>rs_target = rs_target st,
               rs_granularity = min (2 * chunk_count st) (length (rs_target st)),
               rs_invocations = c\<rparr>
         < length (rs_target st) - chunk_count st"
  using assms by (auto simp: chunk_count_def)

termination reduce_loop
proof (relation "measures [\<lambda>(b, orc, st, t). length (rs_target st),
        \<lambda>(b, orc, st, t). length (rs_target st) - chunk_count st]", goal_cases)
  case 1
  show ?case by simp
next
  case (2 by_one orc st t x xa xb y b x1 xba ya)
  then show ?case
    using chunk_shrinks [of st x1 y orc "rs_invocations st" t] by simp
next
  case (3 by_one orc st t x xa xb y b x2 xba ya)
  then show ?case
    using complement_shrinks [of st x2 y orc "rs_invocations st" t] by simp
next
  case (4 by_one orc st t x xa xb y b xba ya)
  then show ?case
    using chunk_count_doubled [of st xba] by simp
qed

declare reduce_loop.simps [simp del]

lemma try_chunks_count:
  "try_chunks orc xs n ps c t = (r, c', u) \<Longrightarrow> c \<le> c' \<and> c' \<le> c + length ps"
proof (induction ps arbitrary: c t)
  case Nil
  then show ?case by auto
next
  case (Cons p ps)
  obtain j sw where p: "p = (j, sw)" by (cases p)
  show ?case
    using Cons.prems Cons.IH [of "Suc c"] unfolding p
    by (fastforce split: prod.splits sum.splits test_result.splits if_splits)
qed

lemma invocation_bound_le: "invocation_bound L g \<le> 4 * L * L + 6 * L"
  unfolding invocation_bound_def by (cases "max 2 (min g L) < L") auto

lemma square_step: "L' < L \<Longrightarrow> 4 * L' * L' + 6 * L' + 2 * L \<le> 4 * L * (L::nat)"
proof -
  assume "L' < L"
  then obtain d where L: "L = Suc (L' + d)" using less_imp_Suc_add by blast
  show ?thesis unfolding L by (simp add: algebra_simps)
qed

lemma bound_shrink:
  assumes "L' < L" "2 \<le> L" "k \<le> 2 * max 2 (min g L)"
  shows "k + invocation_bound L' g' \<le> invocation_bound L g"
proof -
  have "k \<le> 2 * L" using assms by auto
  then have "k + invocation_bound L' g' \<le> 4 * L' * L' + 6 * L' + 2 * L"
    using invocation_bound_le [of L' g'] by simp
  also have "\<dots> \<le> 4 * L * L" using assms(1) by (rule square_step)
  also have "\<dots> \<le> invocation_bound L g" using assms(2) by (simp add: invocation_bound_def)
  finally show ?thesis .
qed

lemma bound_double:
  assumes "2 \<le> L" "n = max 2 (min g L)" "n < L" "k \<le> 2 * n"
  shows "k + invocation_bound L (min (2 * n) L) \<le> invocation_bound L g"
  using assms by (auto simp: invocation_bound_def min_def max_def)

lemma bound_last:
  assumes "2 \<le> L" "k \<le> 2 * max 2 (min g L)"
  shows "k \<le> invocation_bound L g"
proof -
  have "k \<le> 2 * L" using assms by auto
  also have "\<dots> \<le> 4 * L * L" by simp
  also have "\<dots> \<le> invocation_bound L g" using assms(1) by (simp add: invocation_bound_def)
  finally show ?thesis .
qed

lemma length_probes: "length (probes n) = 2 * n"
  by (simp add: probes_def)

lemma states_held: "states (held st r) = st # states r"
  by (cases r) (simp add: states_def held_def)

lemma all_held_held: "I st \<Longrightarrow> all_held I r \<Longrightarrow> all_held I (held st r)"
  by (cases r) (simp add: all_held_def states_def held_def)

lemma states_tuple: "states (res, sts, u) = sts"
  by (simp add: states_def)

lemma states_nonempty: "states (reduce_loop by_one orc st t) \<noteq> []"
  by (simp add: reduce_loop.simps [of by_one orc st t] states_tuple states_held Let_def
      split: prod.splits sum.splits scan.splits)

lemma reduce_loop_all:
  assumes "I st"
    and chunk: "\<And>st t i c u. I st \<Longrightarrow> \<not> length (rs_target st) < 2 \<Longrightarrow>
        try_chunks orc (rs_target st) (chunk_count st) (probes (chunk_count st))
          (rs_invocations st) t = (Inr (ChunkFails i), c, u) \<Longrightarrow>
        I \<lparr>rs_target = chunk (chunk_count st) (rs_target st) i, rs_granularity = 2,
           rs_invocations = c\<rparr>"
    and compl: "\<And>st t i c u. I st \<Longrightarrow> \<not> length (rs_target st) < 2 \<Longrightarrow>
        try_chunks orc (rs_target st) (chunk_count st) (probes (chunk_count st))
          (rs_invocations st) t = (Inr (ComplementFails i), c, u) \<Longrightarrow>
        I \<lparr>rs_target = chunk_complement (chunk_count st) (rs_target st) i,
           rs_granularity = (if by_one then max (chunk_count st - 1) 2 else chunk_count st),
           rs_invocations = c\<rparr>"
    and double: "\<And>st t c u. I st \<Longrightarrow> \<not> length (rs_target st) < 2 \<Longrightarrow>
        try_chunks orc (rs_target st) (chunk_count st) (probes (chunk_count st))
          (rs_invocations st) t = (Inr NothingFails, c, u) \<Longrightarrow>
        chunk_count st < length (rs_target st) \<Longrightarrow>
        I \<lparr>rs_target = rs_target st,
           rs_granularity = min (2 * chunk_count st) (length (rs_target st)),
           rs_invocations = c\<rparr>"
    and stop: "\<And>st t r c u. I st \<Longrightarrow> \<not> length (rs_target st) < 2 \<Longrightarrow>
        try_chunks orc (rs_target st) (chunk_count st) (probes (chunk_count st))
          (rs_invocations st) t = (r, c, u) \<Longrightarrow>
        J (st\<lparr>rs_invocations := c\<rparr>)"
    and weaken: "\<And>st. I st \<Longrightarrow> J st"
  shows "all_held J (reduce_loop by_one orc st t)"
  using assms
proof (induction by_one orc st t rule: reduce_loop.induct)
  case (1 by_one orc st t)
  note I0 = "1.prems"(1) and chunk = "1.prems"(2) and compl = "1.prems"(3)
    and double = "1.prems"(4) and stop = "1.prems"(5) and weaken = "1.prems"(6)
  note J0 = weaken [OF I0]
  let ?xs = "rs_target st"
  let ?n = "chunk_count st"
  show ?case
  proof (cases "length ?xs < 2")
    case True
    with J0 show ?thesis
      by (auto simp: reduce_loop.simps [of by_one orc st t] all_held_def states_def Let_def)
  next
    case False
    obtain r c u where tc:
      "try_chunks orc ?xs ?n (probes ?n) (rs_invocations st) t = (r, c, u)"
      by (cases "try_chunks orc ?xs ?n (probes ?n) (rs_invocations st) t")
    show ?thesis
    proof (cases r)
      case (Inl e)
      with False tc stop [OF I0 False tc] show ?thesis
        by (auto simp: reduce_loop.simps [of by_one orc st t] all_held_def states_def Let_def)
    next
      case (Inr sc)
      show ?thesis
      proof (cases sc)
        case (ChunkFails i)
        note tc' = tc [unfolded Inr ChunkFails]
        have "all_held J (reduce_loop by_one orc
                \<lparr>rs_target = chunk ?n ?xs i, rs_granularity = 2, rs_invocations = c\<rparr> u)"
          by (rule "1.IH"(1) [OF refl refl False tc' [symmetric] refl refl refl])
             (rule chunk [OF I0 False tc'], fact chunk, fact compl, fact double, fact stop, fact weaken)
        with False tc' J0 show ?thesis
          by (simp add: reduce_loop.simps [of by_one orc st t] all_held_held Let_def)
      next
        case (ComplementFails i)
        note tc' = tc [unfolded Inr ComplementFails]
        have "all_held J (reduce_loop by_one orc
                \<lparr>rs_target = chunk_complement ?n ?xs i,
                   rs_granularity = (if by_one then max (?n - 1) 2 else ?n),
                   rs_invocations = c\<rparr> u)"
          by (rule "1.IH"(2) [OF refl refl False tc' [symmetric] refl refl refl])
             (rule compl [OF I0 False tc'], fact chunk, fact compl, fact double, fact stop, fact weaken)
        with False tc' J0 show ?thesis
          by (simp add: reduce_loop.simps [of by_one orc st t] all_held_held Let_def)
      next
        case NothingFails
        note tc' = tc [unfolded Inr NothingFails]
        show ?thesis
        proof (cases "?n < length ?xs")
          case True
          have "all_held J (reduce_loop by_one orc
                  \<lparr>rs_target = ?xs, rs_granularity = min (2 * ?n) (length ?xs),
                     rs_invocations = c\<rparr> u)"
            by (rule "1.IH"(3) [OF refl refl False tc' [symmetric] refl refl refl True])
               (rule double [OF I0 False tc' True], fact chunk, fact compl, fact double, fact stop, fact weaken)
          with False True tc' J0 show ?thesis
            by (simp add: reduce_loop.simps [of by_one orc st t] all_held_held Let_def)
        next
          case stop': False
          with False tc' stop [OF I0 False tc'] show ?thesis
            by (auto simp: reduce_loop.simps [of by_one orc st t] all_held_def states_def Let_def)
        qed
      qed
    qed
  qed
qed

lemma try_chunks_sound:
  assumes "preserves_anomaly classify c orc"
  shows "try_chunks orc xs n ps k t = (Inr r, k', u) \<Longrightarrow>
     (r = ChunkFails i \<longrightarrow> classify (chunk n xs i) = c) \<and>
     (r = ComplementFails i \<longrightarrow> classify (chunk_complement n xs i) = c)"
proof (induction ps arbitrary: k t)
  case Nil
  then show ?case by auto
next
  case (Cons p ps)
  obtain j sw where p: "p = (j, sw)" by (cases p)
  obtain res v where o: "(if sw then orc (chunk_complement n xs j) (chunk n xs j) t
            else orc (chunk n xs j) (chunk_complement n xs j) t) = (res, v)"
    by (cases "if sw then orc (chunk_complement n xs j) (chunk n xs j) t
            else orc (chunk n xs j) (chunk_complement n xs j) t")
  show ?case
  proof (cases res)
    case (Inl e)
    with Cons.prems o show ?thesis unfolding p by simp
  next
    case (Inr a)
    obtain tag x1 x2 where a: "a = (tag, x1, x2)" by (cases a)
    define x where "x = (x1, x2)"
    note a = a [folded x_def]
    show ?thesis
    proof (cases tag)
      case TESTRESULT_NOFAILURE
      with Cons.prems o Inr a have "try_chunks orc xs n ps (Suc k) v = (Inr r, k', u)"
        unfolding p by (simp split: prod.splits)
      then show ?thesis by (rule Cons.IH)
    next
      case TESTRESULT_KEEPPREFIX
      with o Inr a have
        "if sw then orc (chunk_complement n xs j) (chunk n xs j) t
                     = (Inr (TESTRESULT_KEEPPREFIX, x), v)
         else orc (chunk n xs j) (chunk_complement n xs j) t
                     = (Inr (TESTRESULT_KEEPPREFIX, x), v)"
        by (simp split: if_splits)
      with assms have "classify (if sw then chunk_complement n xs j else chunk n xs j) = c"
        unfolding preserves_anomaly_def x_def by (cases sw) fastforce+
      with Cons.prems o Inr a TESTRESULT_KEEPPREFIX show ?thesis
        unfolding p by (auto split: prod.splits if_splits)
    next
      case TESTRESULT_KEEPSUFFIX
      with o Inr a have
        "if sw then orc (chunk_complement n xs j) (chunk n xs j) t
                     = (Inr (TESTRESULT_KEEPSUFFIX, x), v)
         else orc (chunk n xs j) (chunk_complement n xs j) t
                     = (Inr (TESTRESULT_KEEPSUFFIX, x), v)"
        by (simp split: if_splits)
      with assms have "classify (if sw then chunk n xs j else chunk_complement n xs j) = c"
        unfolding preserves_anomaly_def x_def by (cases sw) fastforce+
      with Cons.prems o Inr a TESTRESULT_KEEPSUFFIX show ?thesis
        unfolding p by (auto split: prod.splits if_splits)
    qed
  qed
qed

text \<open>
  The oracle of the program keeps the contract of the engine whenever the verdict of
  \<open>_test_funclist\<close> depends on the tested list alone: \<open>run_test\<close> reports a part
  only after the test of that very part has answered true. The tester of the small world
  is such a one.
\<close>

lemma run_test_preserves_anomaly:
  assumes "\<And>funcs t b u. test_funclist E r funcs t = (Inr b, u) \<Longrightarrow> b = anomalous funcs"
  shows "preserves_anomaly anomalous True (run_test E r)"
  unfolding preserves_anomaly_def
proof (intro allI conjI impI)
  fix p s t x u
  assume a: "run_test E r p s t = (Inr (TESTRESULT_KEEPPREFIX, x), u)"
  then obtain t' where "test_funclist E r p t' = (Inr True, u)"
    by (auto simp: run_test_def bnd_def ret_def split: if_splits prod.splits sum.splits)
  from assms [OF this] show "anomalous p = True" by simp
next
  fix p s t x u
  assume a: "run_test E r p s t = (Inr (TESTRESULT_KEEPSUFFIX, x), u)"
  then have "test_funclist E r s t = (Inr True, u)"
    by (auto simp: run_test_def bnd_def ret_def split: if_splits prod.splits sum.splits)
  from assms [OF this] show "anomalous s = True" by simp
qed

lemma demo_run_test_preserves_anomaly:
  "preserves_anomaly (\<lambda>funcs. concat funcs = ''g'') True (run_test demo_env demo_reducer)"
proof (rule run_test_preserves_anomaly)
  fix funcs t b u
  assume "test_funclist demo_env demo_reducer funcs t = (Inr b, u)"
  with demo_test_funclist [of funcs t] show "b = (concat funcs = ''g'')" by auto
qed

text \<open>
  C1. Anomaly preservation. Let the oracle keep its contract for the classification of
  the input list: whichever part it reports as still failing has the classification of
  the input. Then every target list the engine holds during \<open>reduce(list, oracle)\<close>,
  from the input to the last, has the classification of the input, and so has the list
  the engine returns; this for either choice in step 4 and every history.
\<close>

theorem reduce_preserves_anomaly:
  assumes "preserves_anomaly classify (classify xs) orc"
  shows "list_all (\<lambda>st. classify (rs_target st) = classify xs)
           (states (reduce by_one orc xs t)) \<and>
         (\<forall>ys. fst (reduce by_one orc xs t) = Inr ys \<longrightarrow> classify ys = classify xs)"
proof -
  have "all_held (\<lambda>st. classify (rs_target st) = classify xs)
          (reduce_loop by_one orc \<lparr>rs_target = xs, rs_granularity = 2, rs_invocations = 0\<rparr> t)"
  proof (rule reduce_loop_all [where I = "\<lambda>st. classify (rs_target st) = classify xs"],
      goal_cases)
    case 1
    show ?case by simp
  next
    case (2 st t i c u)
    from try_chunks_sound [OF assms 2(3), of i] show ?case by simp
  next
    case (3 st t i c u)
    from try_chunks_sound [OF assms 3(3), of i] show ?case by simp
  next
    case (4 st t c u)
    then show ?case by simp
  next
    case (5 st t r c u)
    then show ?case by simp
  next
    case (6 st)
    then show ?case .
  qed
  then show ?thesis by (auto simp: all_held_def reduce_def)
qed

theorem reduce_preserves_anomaly_witness:
  "preserves_anomaly (\<lambda>l. ''C'' \<in> set l) True (scenario_oracle ''C'') \<and>
   list_all (\<lambda>st. ''C'' \<in> set (rs_target st))
     (states (reduce True (scenario_oracle ''C'') [''A'', ''B'', ''C'', ''D''] [])) \<and>
   map rs_target (states (reduce True (scenario_oracle ''C'') [''A'', ''B'', ''C'', ''D''] []))
     = [[''A'', ''B'', ''C'', ''D''], [''C'', ''D''], [''C'']] \<and>
   fst (reduce True (scenario_oracle ''C'') [''A'', ''B'', ''C'', ''D''] []) = Inr [''C'']"
proof -
  have so: "preserves_anomaly (\<lambda>l. ''C'' \<in> set l) True (scenario_oracle ''C'')"
    by (auto simp: preserves_anomaly_def scenario_oracle_def ret_def split: if_splits)
  have c: "(''C'' \<in> set [''A'', ''B'', ''C'', ''D'']) = True" by simp
  have run: "map rs_target
       (states (reduce True (scenario_oracle ''C'') [''A'', ''B'', ''C'', ''D''] []))
     = [[''A'', ''B'', ''C'', ''D''], [''C'', ''D''], [''C'']]"
     "fst (reduce True (scenario_oracle ''C'') [''A'', ''B'', ''C'', ''D''] []) = Inr [''C'']"
    by code_simp+
  from reduce_preserves_anomaly [of "\<lambda>l. ''C'' \<in> set l" "[''A'', ''B'', ''C'', ''D'']"
      "scenario_oracle ''C''" True "[]"] so
  have "list_all (\<lambda>st. ''C'' \<in> set (rs_target st))
     (states (reduce True (scenario_oracle ''C'') [''A'', ''B'', ''C'', ''D''] []))"
    unfolding c by simp
  with so run show ?thesis by simp
qed

text \<open>
  C6. Termination and the bound on oracle calls. The loop is a total function: its
  termination is proved above, for every oracle, by the length of the target, which
  every successful reduction decreases, and then by the distance of the chunk count
  from that length, which every doubling decreases. For every input list of length
  \<open>n\<close>, every oracle (the one that always answers NoFailure included), either choice
  in step 4 and every history, the run holds at least one state, and in every state it
  holds, the last included, the invocation count is at most \<open>4 n\<^sup>2 + 6 n\<close> and the
  target is no longer than the input.
\<close>

theorem reduce_invocations_quadratic:
  "states (reduce by_one orc xs t) \<noteq> [] \<and>
   list_all (\<lambda>st. rs_invocations st \<le> 4 * length xs * length xs + 6 * length xs \<and>
                  length (rs_target st) \<le> length xs)
     (states (reduce by_one orc xs t))"
proof -
  let ?K = "4 * length xs * length xs + 6 * length xs"
  let ?I = "\<lambda>st. rs_invocations st
                 + invocation_bound (length (rs_target st)) (rs_granularity st) \<le> ?K \<and>
               length (rs_target st) \<le> length xs"
  let ?J = "\<lambda>st. rs_invocations st \<le> ?K \<and> length (rs_target st) \<le> length xs"
  have "all_held ?J
          (reduce_loop by_one orc \<lparr>rs_target = xs, rs_granularity = 2, rs_invocations = 0\<rparr> t)"
  proof (rule reduce_loop_all [where I = ?I], goal_cases)
    case 1
    show ?case using invocation_bound_le [of "length xs" 2] by simp
  next
    case (2 st t i c u)
    let ?L = "length (rs_target st)"
    from 2(2) have L: "2 \<le> ?L" by simp
    have lt: "length (chunk (chunk_count st) (rs_target st) i) < ?L"
      using try_chunks_index [OF 2(3), of i] L
      by (intro length_chunk) (auto simp: probes_def chunk_count_def)
    from try_chunks_count [OF 2(3)] have k: "c - rs_invocations st \<le> 2 * chunk_count st"
      and ge: "rs_invocations st \<le> c" by (auto simp: length_probes)
    from bound_shrink [OF lt L k [unfolded chunk_count_def], of 2]
    show ?case using 2(1) ge lt by auto
  next
    case (3 st t i c u)
    let ?L = "length (rs_target st)"
    from 3(2) have L: "2 \<le> ?L" by simp
    have lt: "length (chunk_complement (chunk_count st) (rs_target st) i) < ?L"
      using try_chunks_index [OF 3(3), of i] L
      by (intro length_chunk_complement) (auto simp: probes_def chunk_count_def)
    from try_chunks_count [OF 3(3)] have k: "c - rs_invocations st \<le> 2 * chunk_count st"
      and ge: "rs_invocations st \<le> c" by (auto simp: length_probes)
    from bound_shrink [OF lt L k [unfolded chunk_count_def],
        of "if by_one then max (chunk_count st - 1) 2 else chunk_count st"]
    show ?case using 3(1) ge lt by auto
  next
    case (4 st t c u)
    let ?L = "length (rs_target st)"
    from 4(2) have L: "2 \<le> ?L" by simp
    from try_chunks_count [OF 4(3)] have k: "c - rs_invocations st \<le> 2 * chunk_count st"
      and ge: "rs_invocations st \<le> c" by (auto simp: length_probes)
    from bound_double [OF L chunk_count_def 4(4) k]
    show ?case using 4(1) ge by auto
  next
    case (5 st t r c u)
    let ?L = "length (rs_target st)"
    from 5(2) have L: "2 \<le> ?L" by simp
    from try_chunks_count [OF 5(3)] have k: "c - rs_invocations st \<le> 2 * chunk_count st"
      and ge: "rs_invocations st \<le> c" by (auto simp: length_probes)
    from bound_last [OF L k [unfolded chunk_count_def]]
    show ?case using 5(1) ge by auto
  next
    case (6 st)
    then show ?case by auto
  qed
  moreover have "states (reduce by_one orc xs t) \<noteq> []"
    by (simp add: reduce_def states_nonempty)
  ultimately show ?thesis
    by (auto simp: all_held_def reduce_def list_all_iff)
qed

theorem reduce_invocations_quadratic_witness:
  "map rs_invocations
     (states (reduce True (scenario_oracle ''Z'') [''A'', ''B'', ''C'', ''D'', ''E''] []))
     = [0, 4, 22] \<and>
   states (reduce True (scenario_oracle ''Z'') [''A'', ''B'', ''C'', ''D'', ''E''] []) \<noteq> [] \<and>
   list_all (\<lambda>st. rs_invocations st \<le> 130 \<and> length (rs_target st) \<le> 5)
     (states (reduce True (scenario_oracle ''Z'') [''A'', ''B'', ''C'', ''D'', ''E''] []))"
proof -
  have run: "map rs_invocations
     (states (reduce True (scenario_oracle ''Z'') [''A'', ''B'', ''C'', ''D'', ''E''] []))
     = [0, 4, 22]"
    by code_simp
  have len: "length [''A'', ''B'', ''C'', ''D'', ''E''] = 5" by simp
  from reduce_invocations_quadratic [of True "scenario_oracle ''Z''"
      "[''A'', ''B'', ''C'', ''D'', ''E'']" "[]", unfolded len] run
  show ?thesis by simp
qed

end
